theory Spec2Isabelle
  imports Complex_Main
begin

section \<open>Values, expressions and errors\<close>

text \<open>
  The interpreter is dynamically typed: the parser's expression trees and the evaluator's
  run-time values are the same Python objects.  One datatype covers both: \<open>None\<close>,
  booleans, unbounded integers, \<open>Fraction\<close>s, strings (symbols) and lists.
  Strings are lists of 8-bit characters, read as the code points 0 to 255.
\<close>

datatype pyval =
    PNone
  | PBool bool
  | PInt int
  | PFrac rat
  | PStr string
  | PList "pyval list"

text \<open>
  The exceptions the code raises, by their Python class.  \<open>RecursionError\<close> is what
  Python raises when the call depth is used up; the evaluator below takes the remaining
  depth as a parameter.  \<open>FloatResult\<close> marks the calls of \<open>sqrt\<close> and \<open>pow\<close> whose
  result depends on floating-point rounding; they are outside this development.
\<close>

datatype pyerr =
    IndexError
  | SyntaxError
  | NameError
  | TypeError
  | KeyError
  | ValueError
  | OverflowError
  | ZeroDivisionError
  | RecursionError
  | FloatResult

section \<open>Parser (parser.py)\<close>

definition quote_char :: char where
  "quote_char = CHR 0x27"

definition is_space :: "char \<Rightarrow> bool" where
  \<comment> \<open>the characters \<open>str.strip()\<close> removes and the regular expression's \<open>\s\<close> matches\<close>
  "is_space c = (let n = (of_char c :: nat) in
     (9 \<le> n \<and> n \<le> 13) \<or> (28 \<le> n \<and> n \<le> 32) \<or> n = 133 \<or> n = 160)"

definition is_ascii_digit :: "char \<Rightarrow> bool" where
  "is_ascii_digit c = (let n = (of_char c :: nat) in 48 \<le> n \<and> n \<le> 57)"

definition is_digit_char :: "char \<Rightarrow> bool" where
  \<comment> \<open>\<open>str.isdigit()\<close> also accepts the superscript digits U+00B2, U+00B3 and U+00B9\<close>
  "is_digit_char c = (let n = (of_char c :: nat) in
     (48 \<le> n \<and> n \<le> 57) \<or> n = 178 \<or> n = 179 \<or> n = 185)"

definition strip :: "string \<Rightarrow> string" where
  "strip s = rev (dropWhile is_space (rev (dropWhile is_space s)))"

definition isdigit :: "string \<Rightarrow> bool" where
  "isdigit s = (s \<noteq> [] \<and> list_all is_digit_char s)"

definition startswith :: "string \<Rightarrow> char \<Rightarrow> bool" where
  "startswith s c = (case s of [] \<Rightarrow> False | x # _ \<Rightarrow> x = c)"

definition endswith :: "string \<Rightarrow> char \<Rightarrow> bool" where
  "endswith s c = (s \<noteq> [] \<and> last s = c)"

definition is_number :: "string \<Rightarrow> pyerr + bool" where
  \<comment> \<open>\<open>expression[0]\<close> raises on the empty string\<close>
  "is_number expression = (case expression of
       [] \<Rightarrow> Inl IndexError
     | c # cs \<Rightarrow> Inr ((c = CHR ''-'' \<and> isdigit cs) \<or> isdigit expression))"

definition is_list :: "string \<Rightarrow> bool" where
  "is_list expression = (startswith expression CHR ''('' \<and> endswith expression CHR '')'')"

definition digits_value :: "string \<Rightarrow> int" where
  "digits_value s = foldl (\<lambda>acc c. 10 * acc + (int (of_char c) - 48)) 0 s"

definition py_int :: "string \<Rightarrow> pyerr + pyval" where
  \<comment> \<open>\<open>int(expression)\<close> on a string that passed \<open>is_number\<close>; it rejects the superscript digits\<close>
  "py_int s = (case s of
       [] \<Rightarrow> Inl ValueError
     | c # cs \<Rightarrow>
         if c = CHR ''-'' \<and> cs \<noteq> [] \<and> list_all is_ascii_digit cs then Inr (PInt (- digits_value cs))
         else if list_all is_ascii_digit s then Inr (PInt (digits_value s))
         else Inl ValueError)"

text \<open>
  \<open>re.findall(r'\(|\)|[^\s()]+', s)\<close>: a parenthesis is a token of its own, a maximal run
  of other non-blank characters is a token, blanks are skipped.  \<open>cur\<close> is the run read so far.
\<close>

definition flush :: "string \<Rightarrow> string list" where
  "flush cur = (if cur = [] then [] else [cur])"

fun tokenize_from :: "string \<Rightarrow> string \<Rightarrow> string list" where
  "tokenize_from cur [] = flush cur"
| "tokenize_from cur (c # cs) =
     (if c = CHR ''('' \<or> c = CHR '')'' then flush cur @ [c] # tokenize_from [] cs
      else if is_space c then flush cur @ tokenize_from [] cs
      else tokenize_from (cur @ [c]) cs)"

definition tokenize :: "string \<Rightarrow> string list" where
  "tokenize tokens_str = tokenize_from [] tokens_str"

text \<open>
  \<open>extract_sublist\<close> pops tokens until the parenthesis that closes the sublist; the model
  returns the sublist together with the tokens left in the caller's list.
\<close>

fun extract_sublist_loop :: "int \<Rightarrow> string list \<Rightarrow> string list \<Rightarrow> pyerr + (string list \<times> string list)" where
  "extract_sublist_loop depth sub_expr [] = Inl SyntaxError"
| "extract_sublist_loop depth sub_expr (token # tokens) =
     (if token = ''('' then extract_sublist_loop (depth + 1) (sub_expr @ [token]) tokens
      else if token = '')'' then
        (if depth - 1 = 0 then Inr (sub_expr, tokens)
         else extract_sublist_loop (depth - 1) (sub_expr @ [token]) tokens)
      else extract_sublist_loop depth (sub_expr @ [token]) tokens)"

definition extract_sublist :: "string list \<Rightarrow> pyerr + (string list \<times> string list)" where
  "extract_sublist tokens = extract_sublist_loop 1 [] tokens"

definition chars :: "string list \<Rightarrow> nat" where
  "chars ts = sum_list (map length ts)"

lemma chars_simps [simp]: "chars [] = 0" "chars (t # ts) = length t + chars ts"
  "chars (xs @ ys) = chars xs + chars ys"
  by (simp_all add: chars_def)

lemma extract_sublist_loop_chars:
  "extract_sublist_loop d acc ts = Inr (sub, rest) \<Longrightarrow> chars sub + chars rest \<le> chars acc + chars ts"
proof (induction ts arbitrary: d acc)
  case Nil
  then show ?case by simp
next
  case (Cons t ts)
  then show ?case
    by (fastforce split: if_splits)
qed

lemma extract_sublist_chars:
  "extract_sublist ts = Inr (sub, rest) \<Longrightarrow> chars sub + chars rest \<le> chars ts"
  using extract_sublist_loop_chars [of 1 "[]" ts sub rest] by (simp add: extract_sublist_def)

lemma extract_sublist_loop_length:
  "extract_sublist_loop d acc ts = Inr (sub, rest) \<Longrightarrow> length rest < length ts"
proof (induction ts arbitrary: d acc)
  case Nil
  then show ?case by simp
next
  case (Cons t ts)
  then show ?case
    by (fastforce split: if_splits)
qed

lemma chars_flush [simp]: "chars (flush cur) = length cur"
  by (simp add: flush_def)

lemma tokenize_from_chars: "chars (tokenize_from cur s) \<le> length cur + length s"
  by (induction cur s rule: tokenize_from.induct) auto

lemma chars_butlast: "chars (butlast ts) \<le> chars ts"
  by (induction ts) auto

lemma length_strip: "length (strip s) \<le> length s"
proof -
  have "length (strip s) \<le> length (dropWhile is_space s)"
    unfolding strip_def using length_dropWhile_le [of is_space "rev (dropWhile is_space s)"] by simp
  also have "\<dots> \<le> length s" by (rule length_dropWhile_le)
  finally show ?thesis .
qed

lemma startswith_length: "startswith s c \<Longrightarrow> length (tl s) < length s"
  by (cases s) (simp_all add: startswith_def)

lemma is_list_tokens_chars:
  assumes "is_list s"
  shows "chars (butlast (tl (tokenize s))) < length s"
proof -
  from assms obtain cs where s: "s = CHR ''('' # cs"
    by (cases s) (auto simp: is_list_def startswith_def)
  have "chars (butlast (tl (tokenize s))) \<le> chars (tokenize_from [] cs)"
    by (simp add: s tokenize_def flush_def chars_butlast)
  also have "\<dots> \<le> length cs"
    using tokenize_from_chars [of "[]" cs] by simp
  finally show ?thesis by (simp add: s)
qed

text \<open>
  \<open>parse_expression\<close> and \<open>parse_list\<close> call each other.  \<open>parse_list\<close> is the loop
  \<open>while tokens: token = tokens.pop(0) ...\<close>, returning the parsed list; the body of
  \<open>handle_quotation\<close> is the branch for the token \<open>'\<close>.
\<close>

function parse_expression :: "string \<Rightarrow> pyerr + pyval"
  and parse_list :: "string list \<Rightarrow> pyerr + pyval list" where
  "parse_expression expression =
     (if startswith (strip expression) quote_char then
        (case parse_expression (strip (tl (strip expression))) of
           Inl e \<Rightarrow> Inl e
         | Inr q \<Rightarrow> Inr (PList [PStr ''quote'', q]))
      else case is_number (strip expression) of
          Inl e \<Rightarrow> Inl e
        | Inr True \<Rightarrow> py_int (strip expression)
        | Inr False \<Rightarrow>
            if is_list (strip expression) then
              (case parse_list (butlast (tl (tokenize (strip expression)))) of
                 Inl e \<Rightarrow> Inl e
               | Inr l \<Rightarrow> Inr (PList l))
            else Inr (PStr (strip expression)))"
| "parse_list [] = Inr []"
| "parse_list (token # tokens) =
     (if token = ''('' then
        (case extract_sublist tokens of
           Inl e \<Rightarrow> Inl e
         | Inr (sub_expr, rest) \<Rightarrow>
             (case parse_list sub_expr of
                Inl e \<Rightarrow> Inl e
              | Inr l \<Rightarrow>
                  (case parse_list rest of
                     Inl e \<Rightarrow> Inl e
                   | Inr parsed_tokens \<Rightarrow> Inr (PList l # parsed_tokens))))
      else if token = '')'' then Inl SyntaxError
      else if token = [quote_char] then
        (case tokens of
           [] \<Rightarrow> Inl SyntaxError
         | next_token # tokens' \<Rightarrow>
             if next_token = ''('' then
               (case extract_sublist tokens' of
                  Inl e \<Rightarrow> Inl e
                | Inr (sub_expr, rest) \<Rightarrow>
                    (case parse_list sub_expr of
                       Inl e \<Rightarrow> Inl e
                     | Inr l \<Rightarrow>
                         (case parse_list rest of
                            Inl e \<Rightarrow> Inl e
                          | Inr parsed_tokens \<Rightarrow>
                              Inr (PList [PStr ''quote'', PList l] # parsed_tokens))))
             else
               (case parse_expression next_token of
                  Inl e \<Rightarrow> Inl e
                | Inr q \<Rightarrow>
                    (case parse_list tokens' of
                       Inl e \<Rightarrow> Inl e
                     | Inr parsed_tokens \<Rightarrow>
                         Inr (PList [PStr ''quote'', q] # parsed_tokens))))
      else
        (case parse_expression token of
           Inl e \<Rightarrow> Inl e
         | Inr x \<Rightarrow>
             (case parse_list tokens of
                Inl e \<Rightarrow> Inl e
              | Inr parsed_tokens \<Rightarrow> Inr (x # parsed_tokens))))"
  by pat_completeness auto

termination
proof (relation "measures [
    (\<lambda>x. case x of Inl s \<Rightarrow> length s | Inr ts \<Rightarrow> chars ts),
    (\<lambda>x. case x of Inl s \<Rightarrow> 0 | Inr ts \<Rightarrow> 1),
    (\<lambda>x. case x of Inl s \<Rightarrow> 0 | Inr ts \<Rightarrow> length ts)]", goal_cases)
  case 1
  then show ?case by simp
next
  case (2 expression)
  have "length (strip (tl (strip expression))) \<le> length (tl (strip expression))"
    by (rule length_strip)
  also have "\<dots> < length (strip expression)"
    using 2 by (rule startswith_length)
  also have "\<dots> \<le> length expression"
    by (rule length_strip)
  finally show ?case by simp
next
  case (3 expression x2)
  then have "chars (butlast (tl (tokenize (strip expression)))) < length (strip expression)"
    by (simp add: is_list_tokens_chars)
  also have "\<dots> \<le> length expression"
    by (rule length_strip)
  finally show ?case by simp
next
  case (4 token tokens x2 sub_expr rest)
  then show ?case using extract_sublist_chars [of tokens sub_expr rest] by simp
next
  case (5 token tokens x2 sub_expr rest l)
  then show ?case using extract_sublist_chars [of tokens sub_expr rest] by simp
next
  case (6 token tokens next_token tokens' x2 sub_expr rest)
  then show ?case using extract_sublist_chars [of tokens' sub_expr rest] by simp
next
  case (7 token tokens next_token tokens' x2 sub_expr rest l)
  then show ?case using extract_sublist_chars [of tokens' sub_expr rest] by simp
next
  case (8 token tokens next_token tokens')
  then show ?case by (auto simp: quote_char_def)
next
  case (9 token tokens next_token tokens' q)
  then show ?case by (auto simp: quote_char_def)
next
  case (10 token tokens)
  then show ?case by auto
next
  case (11 token tokens x)
  then show ?case by auto
qed

declare parse_expression.simps [simp del]
declare parse_list.simps [simp del]

subsection \<open>Facts about stripping and tokenizing\<close>

lemma not_space_paren [simp]: "\<not> is_space CHR ''(''" "\<not> is_space CHR '')''" "\<not> is_space quote_char"
  by (simp_all add: is_space_def quote_char_def)

lemma dropWhile_all_space: "list_all is_space s \<Longrightarrow> dropWhile is_space s = []"
  by (induction s) simp_all

lemma strip_all_space: "list_all is_space s \<Longrightarrow> strip s = []"
proof -
  assume "list_all is_space s"
  then have "dropWhile is_space s = []"
    by (rule dropWhile_all_space)
  then show ?thesis by (simp add: strip_def del: dropWhile_eq_Nil_conv)
qed

lemma rstrip_Cons: "\<not> is_space a \<Longrightarrow>
  rev (dropWhile is_space (rev (a # s))) = a # rev (dropWhile is_space (rev s))"
  by (simp add: dropWhile_append)

lemma rstrip_append: "\<not> is_space a \<Longrightarrow>
  rev (dropWhile is_space (rev (ws @ a # s))) = ws @ a # rev (dropWhile is_space (rev s))"
  by (simp add: dropWhile_append)

lemma strip_Cons: "\<not> is_space a \<Longrightarrow> strip (a # s) = a # rev (dropWhile is_space (rev s))"
  by (simp add: strip_def dropWhile_append)

lemma strip_rstrip: "strip (rev (dropWhile is_space (rev s))) = strip s"
proof (cases "list_all is_space s")
  case True
  then have "dropWhile is_space s = []" "dropWhile is_space (rev s) = []"
    by (simp_all add: dropWhile_all_space)
  then show ?thesis by (simp add: strip_def del: dropWhile_eq_Nil_conv)
next
  case False
  then obtain a r where d: "dropWhile is_space s = a # r" and a: "\<not> is_space a"
    by (metis dropWhile_eq_Nil_conv hd_dropWhile list.collapse list_all_iff)
  have s: "s = takeWhile is_space s @ a # r"
    using d by (metis takeWhile_dropWhile_id)
  have sp: "\<forall>x\<in>set (takeWhile is_space s). is_space x"
    by (auto dest: set_takeWhileD)
  have r1: "rev (dropWhile is_space (rev s)) = takeWhile is_space s @ a # rev (dropWhile is_space (rev r))"
    using rstrip_append [OF a, of "takeWhile is_space s" r] s by simp
  have l1: "dropWhile is_space (takeWhile is_space s @ a # rev (dropWhile is_space (rev r)))
      = a # rev (dropWhile is_space (rev r))"
    using sp a by (simp add: dropWhile_append)
  have l2: "rev (dropWhile is_space (rev (a # rev (dropWhile is_space (rev r)))))
      = a # rev (dropWhile is_space (rev r))"
    unfolding rstrip_Cons [OF a] by simp
  have lhs: "strip (rev (dropWhile is_space (rev s))) = a # rev (dropWhile is_space (rev r))"
    unfolding strip_def r1 l1 l2 ..
  have rhs: "strip s = a # rev (dropWhile is_space (rev r))"
    using a by (simp add: strip_def d dropWhile_append)
  show ?thesis by (simp add: lhs rhs)
qed

lemma strip_strip: "strip (strip s) = strip s"
proof (cases "dropWhile is_space s")
  case Nil
  then show ?thesis by (simp add: strip_def del: dropWhile_eq_Nil_conv)
next
  case (Cons a r)
  then have a: "\<not> is_space a"
    by (metis hd_dropWhile list.sel(1) list.distinct(1))
  have s: "strip s = a # rev (dropWhile is_space (rev r))"
    using a by (simp add: strip_def Cons dropWhile_append)
  show ?thesis
    unfolding s strip_Cons [OF a] by simp
qed

lemma strip_fixed: "s \<noteq> [] \<Longrightarrow> \<not> is_space (hd s) \<Longrightarrow> \<not> is_space (last s) \<Longrightarrow> strip s = s"
proof -
  assume "s \<noteq> []" and h: "\<not> is_space (hd s)" and l: "\<not> is_space (last s)"
  then have "dropWhile is_space s = s"
    by (cases s) simp_all
  moreover have "dropWhile is_space (rev s) = rev s"
    using \<open>s \<noteq> []\<close> l by (cases "rev s") (simp_all add: last_rev [symmetric] hd_rev)
  ultimately show ?thesis by (simp add: strip_def)
qed

lemma parse_expression_strip: "parse_expression (strip s) = parse_expression s"
  by (subst parse_expression.simps [of "strip s"], subst parse_expression.simps [of s])
    (simp only: strip_strip)

lemma tokenize_from_snoc_close:
  "tokenize_from cur (s @ '')'') = tokenize_from cur s @ ['')'']"
  by (induction cur s rule: tokenize_from.induct) (simp_all add: flush_def)

definition token_char :: "char \<Rightarrow> bool" where
  "token_char c = (\<not> is_space c \<and> c \<noteq> CHR ''('' \<and> c \<noteq> CHR '')'')"

lemma tokenize_from_token: "list_all token_char s \<Longrightarrow> tokenize_from cur s = flush (cur @ s)"
  by (induction cur s rule: tokenize_from.induct) (simp_all add: token_char_def)

lemma parse_expression_quote_prefix:
  "parse_expression (quote_char # X) =
     (case parse_expression X of Inl e \<Rightarrow> Inl e | Inr q \<Rightarrow> Inr (PList [PStr ''quote'', q]))"
proof -
  have s: "strip (quote_char # X) = quote_char # rev (dropWhile is_space (rev X))"
    by (simp add: strip_Cons)
  have "parse_expression (strip (tl (strip (quote_char # X)))) = parse_expression X"
    by (simp only: s list.sel strip_rstrip parse_expression_strip)
  then show ?thesis
    by (subst parse_expression.simps [of "quote_char # X"]) (simp add: s startswith_def)
qed

definition quote_form :: "string \<Rightarrow> string" where
  "quote_form X = ''(quote '' @ X @ '')''"

definition paren_form :: "string \<Rightarrow> string" where
  "paren_form Y = ''('' @ Y @ '')''"

lemma parse_expression_quote_symbol: "parse_expression ''quote'' = Inr (PStr ''quote'')"
  by code_simp

lemma tokenize_quote_form:
  "tokenize (quote_form X) = ''('' # ''quote'' # tokenize X @ ['')'']"
  by (simp add: quote_form_def tokenize_def flush_def is_space_def tokenize_from_snoc_close)

lemma strip_quote_form: "strip (quote_form X) = quote_form X"
  by (rule strip_fixed) (simp_all add: quote_form_def)

lemma parse_expression_quote_form:
  "parse_expression (quote_form X) =
     (case parse_list (tokenize X) of Inl e \<Rightarrow> Inl e | Inr l \<Rightarrow> Inr (PList (PStr ''quote'' # l)))"
proof -
  have n: "is_number (quote_form X) = Inr False"
    by (simp add: quote_form_def is_number_def isdigit_def is_digit_char_def)
  have l: "is_list (quote_form X)"
    by (simp add: quote_form_def is_list_def startswith_def endswith_def)
  have q: "\<not> startswith (quote_form X) quote_char"
    by (simp add: quote_form_def startswith_def quote_char_def)
  have t: "butlast (tl (tokenize (quote_form X))) = ''quote'' # tokenize X"
    by (simp add: tokenize_quote_form butlast_append)
  have p: "parse_list (''quote'' # tokenize X) =
      (case parse_list (tokenize X) of Inl e \<Rightarrow> Inl e | Inr l \<Rightarrow> Inr (PStr ''quote'' # l))"
    by (subst parse_list.simps) (simp add: parse_expression_quote_symbol quote_char_def)
  show ?thesis
    by (subst parse_expression.simps) (simp add: strip_quote_form n l q t p split: sum.splits)
qed

text \<open>A text that is one token: no blank, no parenthesis, not empty, and not the lone quote mark.\<close>

definition single_token :: "string \<Rightarrow> bool" where
  "single_token X = (X \<noteq> [] \<and> X \<noteq> [quote_char] \<and> list_all token_char X)"

lemma parse_list_single_token:
  assumes "single_token X"
  shows "parse_list (tokenize X) = (case parse_expression X of Inl e \<Rightarrow> Inl e | Inr x \<Rightarrow> Inr [x])"
proof -
  from assms have ne: "X \<noteq> []" and nq: "X \<noteq> [quote_char]" and tc: "list_all token_char X"
    by (simp_all add: single_token_def)
  have t: "tokenize X = [X]"
    using tokenize_from_token [OF tc, of "[]"] ne by (simp add: tokenize_def flush_def)
  have "X \<noteq> ''(''" "X \<noteq> '')''"
    using tc by (auto simp: token_char_def)
  then show ?thesis
    unfolding t by (subst parse_list.simps) (simp add: nq parse_list.simps split: sum.splits)
qed

text \<open>
  The tokens between a sublist's parentheses: every closing parenthesis is matched inside,
  so that the scan of \<open>extract_sublist\<close>, started at depth \<open>d\<close>, is back at \<open>d\<close> at the end.
\<close>

fun nested :: "int \<Rightarrow> string list \<Rightarrow> bool" where
  "nested d [] = (d = 1)"
| "nested d (t # ts) =
     (if t = ''('' then nested (d + 1) ts
      else if t = '')'' then d - 1 \<noteq> 0 \<and> nested (d - 1) ts
      else nested d ts)"

definition balanced :: "string list \<Rightarrow> bool" where
  "balanced ts = nested 1 ts"

lemma extract_sublist_loop_nested:
  "nested d ts \<Longrightarrow> extract_sublist_loop d acc (ts @ ['')'']) = Inr (acc @ ts, [])"
  by (induction ts arbitrary: d acc) (auto split: if_splits)

lemma extract_sublist_balanced:
  "balanced ts \<Longrightarrow> extract_sublist (ts @ ['')'']) = Inr (ts, [])"
  using extract_sublist_loop_nested [of 1 ts "[]"] by (simp add: balanced_def extract_sublist_def)

lemma tokenize_paren_form: "tokenize (paren_form Y) = ''('' # tokenize Y @ ['')'']"
  by (simp add: paren_form_def tokenize_def flush_def tokenize_from_snoc_close)

lemma parse_list_paren_form:
  assumes "balanced (tokenize Y)"
  shows "parse_list (tokenize (paren_form Y)) =
     (case parse_expression (paren_form Y) of Inl e \<Rightarrow> Inl e | Inr x \<Rightarrow> Inr [x])"
proof -
  have s: "strip (paren_form Y) = paren_form Y"
    by (rule strip_fixed) (simp_all add: paren_form_def)
  have n: "is_number (paren_form Y) = Inr False"
    by (simp add: paren_form_def is_number_def isdigit_def is_digit_char_def)
  have l: "is_list (paren_form Y)"
    by (simp add: paren_form_def is_list_def startswith_def endswith_def)
  have q: "\<not> startswith (paren_form Y) quote_char"
    by (simp add: paren_form_def startswith_def quote_char_def)
  have t: "butlast (tl (tokenize (paren_form Y))) = tokenize Y"
    by (simp add: tokenize_paren_form butlast_append)
  have e: "parse_expression (paren_form Y) =
      (case parse_list (tokenize Y) of Inl e \<Rightarrow> Inl e | Inr l \<Rightarrow> Inr (PList l))"
    by (subst parse_expression.simps) (simp add: s n l q t)
  have p: "parse_list (''('' # tokenize Y @ ['')'']) =
      (case parse_list (tokenize Y) of Inl e \<Rightarrow> Inl e | Inr l \<Rightarrow> Inr [PList l])"
    by (subst parse_list.simps)
       (simp add: extract_sublist_balanced [OF assms] parse_list.simps(1) split: sum.splits)
  show ?thesis
    by (simp add: tokenize_paren_form e p split: sum.splits)
qed

definition sexp_text :: "string \<Rightarrow> bool" where
  "sexp_text X = (single_token X \<or>
     (is_list X \<and> length X \<ge> 2 \<and> balanced (tokenize (butlast (tl X)))))"

lemma parse_list_sexp_text:
  assumes "sexp_text X"
  shows "parse_list (tokenize X) = (case parse_expression X of Inl e \<Rightarrow> Inl e | Inr x \<Rightarrow> Inr [x])"
proof (cases "single_token X")
  case True
  then show ?thesis by (rule parse_list_single_token)
next
  case False
  with assms have l: "is_list X" and n: "length X \<ge> 2" and b: "balanced (tokenize (butlast (tl X)))"
    by (simp_all add: sexp_text_def)
  from l n have "X = paren_form (butlast (tl X))"
  proof (cases X)
    case Nil
    with n show ?thesis by simp
  next
    case (Cons c cs)
    with l n have c: "c = CHR ''(''" and cs: "cs \<noteq> []" and "last cs = CHR '')''"
      by (auto simp: is_list_def startswith_def endswith_def split: if_splits)
    then have "cs = butlast cs @ '')''"
      by (metis append_butlast_last_id)
    then show ?thesis
      by (simp add: paren_form_def Cons c)
  qed
  then show ?thesis
    using parse_list_paren_form [OF b] by metis
qed

section \<open>Environment and evaluator (env.py)\<close>

subsection \<open>Numbers, equality, order and text of values\<close>

text \<open>
  Python's \<open>bool\<close> is a subclass of \<open>int\<close>: \<open>True\<close> counts as 1 and \<open>False\<close> as 0 in
  arithmetic, comparisons and dictionary keys.
\<close>

fun int_of :: "pyval \<Rightarrow> int option" where
  "int_of (PInt i) = Some i"
| "int_of (PBool b) = Some (if b then 1 else 0)"
| "int_of _ = None"

fun num_of :: "pyval \<Rightarrow> rat option" where
  "num_of (PInt i) = Some (of_int i)"
| "num_of (PBool b) = Some (if b then 1 else 0)"
| "num_of (PFrac r) = Some r"
| "num_of _ = None"

definition arith2 :: "(int \<Rightarrow> int \<Rightarrow> int) \<Rightarrow> (rat \<Rightarrow> rat \<Rightarrow> rat) \<Rightarrow> pyval \<Rightarrow> pyval \<Rightarrow> pyerr + pyval" where
  \<comment> \<open>\<open>a + b\<close>, \<open>a - b\<close>, \<open>a * b\<close> on numbers: an \<open>int\<close> unless an operand is a \<open>Fraction\<close>\<close>
  "arith2 fi fr a b =
     (case (int_of a, int_of b) of
        (Some x, Some y) \<Rightarrow> Inr (PInt (fi x y))
      | _ \<Rightarrow> (case (num_of a, num_of b) of
                 (Some x, Some y) \<Rightarrow> Inr (PFrac (fr x y))
               | _ \<Rightarrow> Inl TypeError))"

definition py_add :: "pyval \<Rightarrow> pyval \<Rightarrow> pyerr + pyval" where
  "py_add = arith2 (+) (+)"

definition py_sub :: "pyval \<Rightarrow> pyval \<Rightarrow> pyerr + pyval" where
  "py_sub = arith2 (-) (-)"

definition py_mul :: "pyval \<Rightarrow> pyval \<Rightarrow> pyerr + pyval" where
  \<comment> \<open>the left operand is always a number here; a number times a string or a list is a
      sequence, on which the range check that follows raises \<open>TypeError\<close> as well\<close>
  "py_mul = arith2 (*) (*)"

fun py_eq :: "pyval \<Rightarrow> pyval \<Rightarrow> bool"
  and py_eq_list :: "pyval list \<Rightarrow> pyval list \<Rightarrow> bool" where
  "py_eq (PList xs) (PList ys) = py_eq_list xs ys"
| "py_eq (PStr s) (PStr t) = (s = t)"
| "py_eq PNone PNone = True"
| "py_eq a b = (case (num_of a, num_of b) of (Some x, Some y) \<Rightarrow> x = y | _ \<Rightarrow> False)"
| "py_eq_list [] [] = True"
| "py_eq_list (x # xs) (y # ys) = (py_eq x y \<and> py_eq_list xs ys)"
| "py_eq_list _ _ = False"

fun str_lt :: "string \<Rightarrow> string \<Rightarrow> bool" where
  "str_lt [] [] = False"
| "str_lt [] (d # ds) = True"
| "str_lt (c # cs) [] = False"
| "str_lt (c # cs) (d # ds) =
     ((of_char c :: nat) < of_char d \<or> (c = d \<and> str_lt cs ds))"

fun py_lt :: "pyval \<Rightarrow> pyval \<Rightarrow> pyerr + bool"
  and py_lt_list :: "pyval list \<Rightarrow> pyval list \<Rightarrow> pyerr + bool" where
  "py_lt (PList xs) (PList ys) = py_lt_list xs ys"
| "py_lt (PStr s) (PStr t) = Inr (str_lt s t)"
| "py_lt a b = (case (num_of a, num_of b) of (Some x, Some y) \<Rightarrow> Inr (x < y) | _ \<Rightarrow> Inl TypeError)"
| "py_lt_list [] [] = Inr False"
| "py_lt_list [] (y # ys) = Inr True"
| "py_lt_list (x # xs) [] = Inr False"
| "py_lt_list (x # xs) (y # ys) = (if py_eq x y then py_lt_list xs ys else py_lt x y)"

fun py_truthy :: "pyval \<Rightarrow> bool" where
  "py_truthy PNone = False"
| "py_truthy (PBool b) = b"
| "py_truthy (PInt i) = (i \<noteq> 0)"
| "py_truthy (PFrac r) = (r \<noteq> 0)"
| "py_truthy (PStr s) = (s \<noteq> [])"
| "py_truthy (PList xs) = (xs \<noteq> [])"

text \<open>\<open>str(x)\<close> and \<open>repr(x)\<close>, which \<open>str\<close> of a list applies to the elements.\<close>

definition digit_char :: "nat \<Rightarrow> char" where
  "digit_char d = char_of (48 + d)"

function show_nat :: "nat \<Rightarrow> string" where
  "show_nat n = (if n < 10 then [digit_char n] else show_nat (n div 10) @ [digit_char (n mod 10)])"
  by pat_completeness auto
termination
  by (relation "measure id") auto

declare show_nat.simps [simp del]

definition show_int :: "int \<Rightarrow> string" where
  "show_int i = (if i < 0 then CHR ''-'' # show_nat (nat (- i)) else show_nat (nat i))"

definition hex_digit :: "nat \<Rightarrow> char" where
  "hex_digit d = (if d < 10 then char_of (48 + d) else char_of (87 + d))"

definition repr_char :: "char \<Rightarrow> char \<Rightarrow> string" where
  "repr_char q c = (let n = (of_char c :: nat) in
     if c = q \<or> c = CHR 0x5C then [CHR 0x5C, c]
     else if n = 9 then [CHR 0x5C, CHR ''t'']
     else if n = 10 then [CHR 0x5C, CHR ''n'']
     else if n = 13 then [CHR 0x5C, CHR ''r'']
     else if n < 32 \<or> (127 \<le> n \<and> n \<le> 160) \<or> n = 173
       then [CHR 0x5C, CHR ''x'', hex_digit (n div 16), hex_digit (n mod 16)]
     else [c])"

definition repr_str :: "string \<Rightarrow> string" where
  "repr_str s = (let q = (if quote_char \<in> set s \<and> CHR 0x22 \<notin> set s then CHR 0x22 else quote_char)
     in [q] @ concat (map (repr_char q) s) @ [q])"

fun join_comma :: "string list \<Rightarrow> string" where
  "join_comma [] = []"
| "join_comma [x] = x"
| "join_comma (x # y # ys) = x @ '', '' @ join_comma (y # ys)"

fun py_repr :: "pyval \<Rightarrow> string" where
  "py_repr PNone = ''None''"
| "py_repr (PBool b) = (if b then ''True'' else ''False'')"
| "py_repr (PInt i) = show_int i"
| "py_repr (PFrac r) =
     ''Fraction('' @ show_int (fst (quotient_of r)) @ '', '' @ show_int (snd (quotient_of r)) @ '')''"
| "py_repr (PStr s) = repr_str s"
| "py_repr (PList xs) = ''['' @ join_comma (map py_repr xs) @ '']''"

fun py_str :: "pyval \<Rightarrow> string" where
  "py_str (PStr s) = s"
| "py_str (PFrac r) =
     (if snd (quotient_of r) = 1 then show_int (fst (quotient_of r))
      else show_int (fst (quotient_of r)) @ ''/'' @ show_int (snd (quotient_of r)))"
| "py_str v = py_repr v"

subsection \<open>The environment\<close>

text \<open>
  Dictionary keys: strings, numbers (equal numbers of different types are the same key)
  and \<open>None\<close>; a list is unhashable.
\<close>

datatype vkey = KNone | KNum rat | KStr string

fun key_of :: "pyval \<Rightarrow> vkey option" where
  "key_of PNone = Some KNone"
| "key_of (PStr s) = Some (KStr s)"
| "key_of (PList xs) = None"
| "key_of v = map_option KNum (num_of v)"

datatype primitive =
    Add | Subtract | Multiply | Divide | Greater_than | Less_than | Equals | Not_equal
  | And_operator | Or_operator | Not_operator | Car | Cdr | Cons_fn | Sqrt | Power | If_cond

text \<open>
  The entries of the function table: the bound methods of the environment that built the
  table, and the closures \<open>user_function\<close> that \<open>defun\<close> stores (name, parameters, body).
\<close>

datatype fn =
    Primitive primitive
  | Define_fn
  | Set_fn
  | Defun_fn
  | Mapcar_fn
  | UserFunction string "pyval list" pyval

record environment =
  variables :: "vkey \<rightharpoonup> pyval"
  function_table :: "string \<rightharpoonup> fn"

definition init_environment :: environment where
  "init_environment = \<lparr>
     variables = [KStr ''T'' \<mapsto> PBool True, KStr ''NIL'' \<mapsto> PNone],
     function_table = map_of [
       (''+'', Primitive Add), (''-'', Primitive Subtract), (''*'', Primitive Multiply),
       (''/'', Primitive Divide), (''>'', Primitive Greater_than), (''<'', Primitive Less_than),
       (''='', Primitive Equals), (''!='', Primitive Not_equal), (''and'', Primitive And_operator),
       (''or'', Primitive Or_operator), (''not'', Primitive Not_operator), (''car'', Primitive Car),
       (''cdr'', Primitive Cdr), (''cons'', Primitive Cons_fn), (''sqrt'', Primitive Sqrt),
       (''pow'', Primitive Power), (''define'', Define_fn), (''if'', Primitive If_cond),
       (''set!'', Set_fn), (''defun'', Defun_fn), (''mapcar'', Mapcar_fn)] \<rparr>"

text \<open>
  Every table entry is bound to the environment that built the table (the session's
  environment, called the root here), and \<open>user_function\<close> shares that table with the child
  environment it creates: \<open>define\<close>, \<open>defun\<close> and a \<open>set!\<close> reached through the table always
  act on the root.  The variables of the environment that is evaluating (\<open>self.variables\<close>)
  are the root's when the frame is \<open>None\<close>, and the child's own copy otherwise.
\<close>

type_synonym frame = "(vkey \<rightharpoonup> pyval) option"

definition self_variables :: "environment \<Rightarrow> frame \<Rightarrow> (vkey \<rightharpoonup> pyval)" where
  "self_variables env loc = (case loc of None \<Rightarrow> variables env | Some l \<Rightarrow> l)"

subsection \<open>Built-in functions\<close>

definition INT_MIN :: rat where "INT_MIN = - 2147483648"
definition INT_MAX :: rat where "INT_MAX = 2147483647"

definition check_32bit :: "pyval \<Rightarrow> pyerr + pyval" where
  "check_32bit val = (case num_of val of
       None \<Rightarrow> Inl TypeError
     | Some r \<Rightarrow> if r < INT_MIN \<or> r > INT_MAX then Inl OverflowError else Inr val)"

fun py_sum :: "pyval \<Rightarrow> pyval list \<Rightarrow> pyerr + pyval" where
  "py_sum acc [] = Inr acc"
| "py_sum acc (x # xs) = (case py_add acc x of Inl e \<Rightarrow> Inl e | Inr r \<Rightarrow> py_sum r xs)"

definition add :: "pyval list \<Rightarrow> pyerr + pyval" where
  "add args = (case py_sum (PInt 0) args of Inl e \<Rightarrow> Inl e | Inr result \<Rightarrow> check_32bit result)"

definition subtract :: "pyval list \<Rightarrow> pyerr + pyval" where
  "subtract args = (case args of
       [a, b] \<Rightarrow> (case py_sub a b of Inl e \<Rightarrow> Inl e | Inr result \<Rightarrow> check_32bit result)
     | _ \<Rightarrow> Inl TypeError)"

fun multiply_loop :: "pyval \<Rightarrow> pyval list \<Rightarrow> pyerr + pyval" where
  "multiply_loop result [] = Inr result"
| "multiply_loop result (arg # args) =
     (case py_mul result arg of
        Inl e \<Rightarrow> Inl e
      | Inr r \<Rightarrow> (case check_32bit r of Inl e \<Rightarrow> Inl e | Inr _ \<Rightarrow> multiply_loop r args))"

definition multiply :: "pyval list \<Rightarrow> pyerr + pyval" where
  "multiply args = multiply_loop (PInt 1) args"

text \<open>
  \<open>Fraction(s)\<close> for a string \<open>s\<close>, after the regular expression of the \<open>fractions\<close>
  module: blanks, a sign, then digits with an optional denominator (\<open>3/4\<close>), or digits
  with an optional decimal part and an optional exponent (\<open>1.5e3\<close>), then blanks.  Digit
  groups may be joined by single underscores.  \<open>digits_us\<close> reads \<open>\d+(_\d+)*\<close>.
\<close>

fun digits_us :: "string \<Rightarrow> string \<times> string" where
  "digits_us [] = ([], [])"
| "digits_us (c # cs) =
     (if is_ascii_digit c then (case digits_us cs of (d, r) \<Rightarrow> (c # d, r))
      else if c = CHR ''_'' \<and> cs \<noteq> [] \<and> is_ascii_digit (hd cs) then digits_us cs
      else ([], c # cs))"

definition digit_run :: "string \<Rightarrow> string \<times> string" where
  "digit_run s = (if s \<noteq> [] \<and> is_ascii_digit (hd s) then digits_us s else ([], s))"

definition fraction_from_string :: "string \<Rightarrow> pyerr + rat" where
  "fraction_from_string s =
     (let s1 = dropWhile is_space s;
          neg = (s1 \<noteq> [] \<and> hd s1 = CHR ''-'');
          s2 = (if s1 \<noteq> [] \<and> (hd s1 = CHR ''-'' \<or> hd s1 = CHR ''+'') then tl s1 else s1);
          sgn = (if neg then - 1 else 1 :: rat)
      in if \<not> (s2 \<noteq> [] \<and> (is_ascii_digit (hd s2)
                 \<or> (hd s2 = CHR ''.'' \<and> tl s2 \<noteq> [] \<and> is_ascii_digit (hd (tl s2)))))
         then Inl ValueError
         else (case digit_run s2 of (num, s3) \<Rightarrow>
           if s3 \<noteq> [] \<and> hd s3 = CHR ''/'' then
             (case digit_run (tl s3) of (den, s4) \<Rightarrow>
                if den = [] \<or> \<not> list_all is_space s4 then Inl ValueError
                else if digits_value den = 0 then Inl ZeroDivisionError
                else Inr (sgn * of_int (digits_value num) / of_int (digits_value den)))
           else
             (case (if s3 \<noteq> [] \<and> hd s3 = CHR ''.'' then digit_run (tl s3) else ([], s3)) of
                (dec, s4) \<Rightarrow>
                  (case (if s4 \<noteq> [] \<and> (hd s4 = CHR ''e'' \<or> hd s4 = CHR ''E'') then
                           (let t = tl s4;
                                eneg = (t \<noteq> [] \<and> hd t = CHR ''-'');
                                t' = (if t \<noteq> [] \<and> (hd t = CHR ''-'' \<or> hd t = CHR ''+'') then tl t else t)
                            in case digit_run t' of (ex, s5) \<Rightarrow>
                                 if ex = [] then (0, s4)
                                 else (if eneg then - digits_value ex else digits_value ex, s5))
                         else (0, s4)) of
                     (ex, s5) \<Rightarrow>
                       if \<not> list_all is_space s5 then Inl ValueError
                       else Inr (sgn * of_int (digits_value num * 10 ^ length dec + digits_value dec)
                                   / of_int (10 ^ length dec)
                                   * (if 0 \<le> ex then 10 ^ nat ex else 1 / 10 ^ nat (- ex)))))))"

definition fraction_new :: "pyval \<Rightarrow> pyval \<Rightarrow> pyerr + rat" where
  \<comment> \<open>\<open>Fraction(a, b)\<close>: with \<open>b\<close> being \<open>None\<close> it is \<open>Fraction(a)\<close>, which also reads a string;
      otherwise both arguments must be rational numbers\<close>
  "fraction_new a b =
     (if b = PNone then
        (case a of
           PStr s \<Rightarrow> fraction_from_string s
         | _ \<Rightarrow> (case num_of a of Some x \<Rightarrow> Inr x | None \<Rightarrow> Inl TypeError))
      else (case (num_of a, num_of b) of
              (Some x, Some y) \<Rightarrow> if y = 0 then Inl ZeroDivisionError else Inr (x / y)
            | _ \<Rightarrow> Inl TypeError))"

definition divide_fn :: "pyval list \<Rightarrow> pyerr + pyval" where
  "divide_fn args = (case args of
       [a, b] \<Rightarrow>
         if py_eq b (PInt 0) then Inl ZeroDivisionError
         else (case fraction_new a b of
                 Inl e \<Rightarrow> Inl e
               | Inr result \<Rightarrow> check_32bit (PFrac result))
     | _ \<Rightarrow> Inl TypeError)"

function isqrt :: "nat \<Rightarrow> nat" where
  "isqrt n = (if n = 0 then 0
              else (let r = 2 * isqrt (n div 4) in if (r + 1) * (r + 1) \<le> n then r + 1 else r))"
  by pat_completeness auto
termination
  by (relation "measure id") auto

declare isqrt.simps [simp del]

definition sqrt_fn :: "pyval list \<Rightarrow> pyerr + pyval" where
  \<comment> \<open>\<open>int(math.sqrt(a))\<close> is the integer square root for an integer below \<open>2 ^ 52\<close>; beyond
      that, and for a \<open>Fraction\<close>, the result depends on floating-point rounding\<close>
  "sqrt_fn args = (case args of
       [a] \<Rightarrow> (case num_of a of
                 None \<Rightarrow> Inl TypeError
               | Some r \<Rightarrow>
                   if r < 0 then Inl ValueError
                   else (case int_of a of
                           Some i \<Rightarrow> if i < 2 ^ 52 then check_32bit (PInt (int (isqrt (nat i))))
                                     else Inl FloatResult
                         | None \<Rightarrow> Inl FloatResult))
     | _ \<Rightarrow> Inl TypeError)"

definition power_fn :: "pyval list \<Rightarrow> pyerr + pyval" where
  \<comment> \<open>\<open>a ** b\<close> is exact for an integer exponent, except that an \<open>int\<close> to a negative power
      is a float; a \<open>Fraction\<close> exponent is left outside, like the floats\<close>
  "power_fn args = (case args of
       [a, b] \<Rightarrow>
         (case (num_of a, num_of b) of
            (Some x, Some _) \<Rightarrow>
              (case int_of b of
                 None \<Rightarrow> Inl FloatResult
               | Some y \<Rightarrow>
                   (case int_of a of
                      Some i \<Rightarrow>
                        if 0 \<le> y then check_32bit (PInt (i ^ nat y))
                        else if i = 0 then Inl ZeroDivisionError
                        else Inl FloatResult
                    | None \<Rightarrow>
                        if 0 \<le> y then check_32bit (PFrac (x ^ nat y))
                        else if x = 0 then Inl ZeroDivisionError
                        else check_32bit (PFrac ((1 / x) ^ nat (- y)))))
          | _ \<Rightarrow> Inl TypeError)
     | _ \<Rightarrow> Inl TypeError)"

definition greater_than :: "pyval list \<Rightarrow> pyerr + pyval" where
  "greater_than args = (case args of
       [a, b] \<Rightarrow> (case py_lt b a of Inl e \<Rightarrow> Inl e | Inr r \<Rightarrow> Inr (PBool r))
     | _ \<Rightarrow> Inl TypeError)"

definition less_than :: "pyval list \<Rightarrow> pyerr + pyval" where
  "less_than args = (case args of
       [a, b] \<Rightarrow> (case py_lt a b of Inl e \<Rightarrow> Inl e | Inr r \<Rightarrow> Inr (PBool r))
     | _ \<Rightarrow> Inl TypeError)"

definition equals :: "pyval list \<Rightarrow> pyerr + pyval" where
  "equals args = (case args of [a, b] \<Rightarrow> Inr (PBool (py_eq a b)) | _ \<Rightarrow> Inl TypeError)"

definition not_equal :: "pyval list \<Rightarrow> pyerr + pyval" where
  "not_equal args = (case args of [a, b] \<Rightarrow> Inr (PBool (\<not> py_eq a b)) | _ \<Rightarrow> Inl TypeError)"

definition and_operator :: "pyval list \<Rightarrow> pyerr + pyval" where
  "and_operator args = (case args of
       [a, b] \<Rightarrow> Inr (if py_truthy a then b else a)
     | _ \<Rightarrow> Inl TypeError)"

definition or_operator :: "pyval list \<Rightarrow> pyerr + pyval" where
  "or_operator args = (case args of
       [a, b] \<Rightarrow> Inr (if py_truthy a then a else b)
     | _ \<Rightarrow> Inl TypeError)"

definition not_operator :: "pyval list \<Rightarrow> pyerr + pyval" where
  "not_operator args = (case args of [a] \<Rightarrow> Inr (PBool (\<not> py_truthy a)) | _ \<Rightarrow> Inl TypeError)"

definition car :: "pyval list \<Rightarrow> pyerr + pyval" where
  "car args = (case args of
       [a] \<Rightarrow> (case a of
                 PList [] \<Rightarrow> Inr PNone
               | PList (x # xs) \<Rightarrow> Inr x
               | _ \<Rightarrow> Inr a)
     | _ \<Rightarrow> Inl TypeError)"

definition cdr :: "pyval list \<Rightarrow> pyerr + pyval" where
  "cdr args = (case args of
       [a] \<Rightarrow> (case a of
                 PList [] \<Rightarrow> Inr PNone
               | PList (x # xs) \<Rightarrow> Inr (PList xs)
               | _ \<Rightarrow> Inl SyntaxError)
     | _ \<Rightarrow> Inl TypeError)"

definition cons :: "pyval list \<Rightarrow> pyerr + pyval" where
  "cons args = (case args of
       [a0, b0] \<Rightarrow>
         (let a = (if a0 = PList [] then PNone else a0);
              b = (if b0 = PList [] then PNone else b0)
          in if a = PNone \<and> b = PNone then Inr PNone
             else (case b of
                     PList l \<Rightarrow> Inr (PList (a # l))
                   | _ \<Rightarrow> Inr (PList [a, PStr ''.'', b])))
     | _ \<Rightarrow> Inl TypeError)"

definition if_cond :: "pyval list \<Rightarrow> pyerr + pyval" where
  \<comment> \<open>\<open>condition is True\<close>: only the boolean \<open>True\<close> itself\<close>
  "if_cond args = (case args of
       [condition, conseq, alt] \<Rightarrow> Inr (if condition = PBool True then conseq else alt)
     | _ \<Rightarrow> Inl TypeError)"

fun apply_primitive :: "primitive \<Rightarrow> pyval list \<Rightarrow> pyerr + pyval" where
  "apply_primitive Add args = add args"
| "apply_primitive Subtract args = subtract args"
| "apply_primitive Multiply args = multiply args"
| "apply_primitive Divide args = divide_fn args"
| "apply_primitive Greater_than args = greater_than args"
| "apply_primitive Less_than args = less_than args"
| "apply_primitive Equals args = equals args"
| "apply_primitive Not_equal args = not_equal args"
| "apply_primitive And_operator args = and_operator args"
| "apply_primitive Or_operator args = or_operator args"
| "apply_primitive Not_operator args = not_operator args"
| "apply_primitive Car args = car args"
| "apply_primitive Cdr args = cdr args"
| "apply_primitive Cons_fn args = cons args"
| "apply_primitive Sqrt args = sqrt_fn args"
| "apply_primitive Power args = power_fn args"
| "apply_primitive If_cond args = if_cond args"

definition define_fn :: "environment \<Rightarrow> pyval list \<Rightarrow> (pyerr + pyval) \<times> environment" where
  "define_fn env args = (case args of
       [var_name, val] \<Rightarrow>
         (case var_name of
            PStr s \<Rightarrow> (Inr (PStr s), env\<lparr>variables := (variables env)(KStr s \<mapsto> val)\<rparr>)
          | _ \<Rightarrow> (Inl TypeError, env))
     | _ \<Rightarrow> (Inl TypeError, env))"

definition set_fn :: "environment \<Rightarrow> frame \<Rightarrow> pyval \<Rightarrow> pyval \<Rightarrow> (pyerr + pyval) \<times> environment \<times> frame" where
  \<comment> \<open>\<open>self.set(var_name, value)\<close> on the environment whose variables the frame gives\<close>
  "set_fn env loc var_name val = (case var_name of
       PStr s \<Rightarrow>
         (case self_variables env loc (KStr s) of
            None \<Rightarrow> (Inl NameError, env, loc)
          | Some _ \<Rightarrow>
              (case loc of
                 None \<Rightarrow> (Inr (PStr s), env\<lparr>variables := (variables env)(KStr s \<mapsto> val)\<rparr>, None)
               | Some l \<Rightarrow> (Inr (PStr s), env, Some (l(KStr s \<mapsto> val)))))
     | _ \<Rightarrow> (Inl SyntaxError, env, loc))"

definition defun :: "environment \<Rightarrow> pyval list \<Rightarrow> (pyerr + pyval) \<times> environment" where
  "defun env args = (case args of
       [name, params, body] \<Rightarrow>
         (case name of
            PStr s \<Rightarrow>
              (case params of
                 PList ps \<Rightarrow>
                   (Inr (PStr s), env\<lparr>function_table := (function_table env)(s \<mapsto> UserFunction s ps body)\<rparr>)
               | _ \<Rightarrow> (Inl SyntaxError, env))
          | _ \<Rightarrow> (Inl SyntaxError, env))
     | _ \<Rightarrow> (Inl TypeError, env))"

fun bind_params :: "(vkey \<rightharpoonup> pyval) \<Rightarrow> pyval list \<Rightarrow> pyval list \<Rightarrow> (vkey \<rightharpoonup> pyval) option" where
  \<comment> \<open>\<open>for param, arg in zip(params, args): local_env.variables[param] = arg\<close>; a parameter
      that is a list is unhashable (\<open>None\<close> here, a \<open>TypeError\<close> in the caller)\<close>
  "bind_params vars (p # ps) (a # as) =
     (case key_of p of None \<Rightarrow> None | Some k \<Rightarrow> bind_params (vars(k \<mapsto> a)) ps as)"
| "bind_params vars _ _ = Some vars"

fun iterable :: "pyval \<Rightarrow> pyval list option" where
  "iterable (PList xs) = Some xs"
| "iterable (PStr s) = Some (map (\<lambda>c. PStr [c]) s)"
| "iterable _ = None"

definition py_zip :: "'a list list \<Rightarrow> 'a list list" where
  \<comment> \<open>\<open>list(zip(*lists))\<close>: the tuples of elements at equal positions, up to the shortest list\<close>
  "py_zip lsts = (if lsts = [] then []
     else map (\<lambda>i. map (\<lambda>l. l ! i) lsts) [0 ..< Min (set (map length lsts))])"


subsection \<open>The evaluator\<close>

text \<open>
  The first argument is the call depth still available: Python raises \<open>RecursionError\<close>
  when it is used up.  Every function returns the root environment as it has become, also
  when it raises: nothing is undone.  \<open>evaluate_operands\<close> is the list comprehension
  \<open>[self.evaluate_expression(operand) for operand in operands]\<close>, \<open>call_function\<close> is the
  call \<open>f(*args)\<close> of a table entry, and \<open>mapcar_loop\<close> is the comprehension
  \<open>[self.functions[func](*values) for values in zipped_list]\<close>.
\<close>

function (sequential) evaluate_expression ::
    "nat \<Rightarrow> environment \<Rightarrow> frame \<Rightarrow> pyval \<Rightarrow> (pyerr + pyval) \<times> environment \<times> frame"
  and evaluate_function_call ::
    "nat \<Rightarrow> environment \<Rightarrow> frame \<Rightarrow> string \<Rightarrow> pyval list \<Rightarrow> (pyerr + pyval) \<times> environment \<times> frame"
  and evaluate_operands ::
    "nat \<Rightarrow> environment \<Rightarrow> frame \<Rightarrow> pyval list \<Rightarrow> (pyerr + pyval list) \<times> environment \<times> frame"
  and call_function ::
    "nat \<Rightarrow> environment \<Rightarrow> fn \<Rightarrow> pyval list \<Rightarrow> (pyerr + pyval) \<times> environment"
  and mapcar_loop ::
    "nat \<Rightarrow> environment \<Rightarrow> pyval \<Rightarrow> pyval list list \<Rightarrow> (pyerr + pyval list) \<times> environment"
where
  "evaluate_expression 0 env loc expression = (Inl RecursionError, env, loc)"
| "evaluate_expression (Suc n) env loc (PList []) = (Inl IndexError, env, loc)"
| "evaluate_expression (Suc n) env loc (PList (head # operands)) =
     (case self_variables env loc (KStr (py_str head)) of
        Some v \<Rightarrow> (Inr v, env, loc)
      | None \<Rightarrow>
          if py_str head = ''quote'' then
            (if length (head # operands) \<noteq> 2 then (Inl SyntaxError, env, loc)
             else (Inr (hd operands), env, loc))
          else (case head of
                  PStr operator \<Rightarrow> evaluate_function_call n env loc operator operands
                | _ \<Rightarrow> (Inl SyntaxError, env, loc)))"
| "evaluate_expression (Suc n) env loc expression =
     (case key_of expression of
        None \<Rightarrow> (Inl TypeError, env, loc)
      | Some k \<Rightarrow>
          (case self_variables env loc k of
             Some v \<Rightarrow> (Inr v, env, loc)
           | None \<Rightarrow> (Inr expression, env, loc)))"
| "evaluate_function_call n env loc operator operands =
     (case function_table env operator of
        None \<Rightarrow> (Inl NameError, env, loc)
      | Some _ \<Rightarrow>
          if operator = ''set!'' then
            (if length operands \<noteq> 2 then (Inl SyntaxError, env, loc)
             else (case evaluate_expression n env loc (operands ! 1) of
                     (Inl e, env', loc') \<Rightarrow> (Inl e, env', loc')
                   | (Inr v, env', loc') \<Rightarrow> set_fn env' loc' (operands ! 0) v))
          else if operator = ''defun'' then
            (case function_table env operator of
               None \<Rightarrow> (Inl KeyError, env, loc)
             | Some f \<Rightarrow>
                 (case call_function n env f operands of (r, env') \<Rightarrow> (r, env', loc)))
          else if operator = ''mapcar'' then
            (if length operands < 2 then (Inl SyntaxError, env, loc)
             else (case evaluate_expression n env loc (hd operands) of
                     (Inl e, env1, loc1) \<Rightarrow> (Inl e, env1, loc1)
                   | (Inr func, env1, loc1) \<Rightarrow>
                       (case evaluate_operands n env1 loc1 (tl operands) of
                          (Inl e, env2, loc2) \<Rightarrow> (Inl e, env2, loc2)
                        | (Inr lsts, env2, loc2) \<Rightarrow>
                            if \<not> list_all (\<lambda>l. case l of PList _ \<Rightarrow> True | _ \<Rightarrow> False) lsts
                            then (Inl TypeError, env2, loc2)
                            else (case call_function n env2 Mapcar_fn (func # lsts) of
                                    (r, env3) \<Rightarrow> (r, env3, loc2)))))
          else
            (case evaluate_operands n env loc operands of
               (Inl e, env1, loc1) \<Rightarrow> (Inl e, env1, loc1)
             | (Inr evaluated_operands, env1, loc1) \<Rightarrow>
                 (case function_table env1 operator of
                    None \<Rightarrow> (Inl KeyError, env1, loc1)
                  | Some f \<Rightarrow>
                      (case call_function n env1 f evaluated_operands of
                         (r, env2) \<Rightarrow> (r, env2, loc1)))))"
| "evaluate_operands n env loc [] = (Inr [], env, loc)"
| "evaluate_operands n env loc (operand # operands) =
     (case evaluate_expression n env loc operand of
        (Inl e, env1, loc1) \<Rightarrow> (Inl e, env1, loc1)
      | (Inr v, env1, loc1) \<Rightarrow>
          (case evaluate_operands n env1 loc1 operands of
             (Inl e, env2, loc2) \<Rightarrow> (Inl e, env2, loc2)
           | (Inr vs, env2, loc2) \<Rightarrow> (Inr (v # vs), env2, loc2)))"
| "call_function n env (Primitive p) args = (apply_primitive p args, env)"
| "call_function n env Define_fn args = define_fn env args"
| "call_function n env Set_fn args =
     (case args of
        [var_name, val] \<Rightarrow> (case set_fn env None var_name val of (r, env', _) \<Rightarrow> (r, env'))
      | _ \<Rightarrow> (Inl TypeError, env))"
| "call_function n env Defun_fn args = defun env args"
| "call_function n env Mapcar_fn args =
     (case args of
        [] \<Rightarrow> (Inl TypeError, env)
      | func # lsts \<Rightarrow>
          (case those (map iterable lsts) of
             None \<Rightarrow> (Inl TypeError, env)
           | Some ls \<Rightarrow>
               (case n of
                  0 \<Rightarrow> (Inl RecursionError, env)
                | Suc m \<Rightarrow>
                    (case mapcar_loop m env func (py_zip ls) of
                       (Inl e, env') \<Rightarrow> (Inl e, env')
                     | (Inr rs, env') \<Rightarrow> (Inr (PList rs), env')))))"
| "call_function n env (UserFunction name params body) args =
     (if length args \<noteq> length params then (Inl TypeError, env)
      else (case bind_params (variables env) params args of
              None \<Rightarrow> (Inl TypeError, env)
            | Some local_variables \<Rightarrow>
                (case n of
                   0 \<Rightarrow> (Inl RecursionError, env)
                 | Suc m \<Rightarrow>
                     (case evaluate_expression m env (Some local_variables) body of
                        (r, env', _) \<Rightarrow> (r, env')))))"
| "mapcar_loop n env func [] = (Inr [], env)"
| "mapcar_loop n env func (vals # rest) =
     (case func of
        PList _ \<Rightarrow> (Inl TypeError, env)
      | PStr s \<Rightarrow>
          (case function_table env s of
             None \<Rightarrow> (Inl KeyError, env)
           | Some f \<Rightarrow>
               (case call_function n env f vals of
                  (Inl e, env1) \<Rightarrow> (Inl e, env1)
                | (Inr v, env1) \<Rightarrow>
                    (case mapcar_loop n env1 func rest of
                       (Inl e, env2) \<Rightarrow> (Inl e, env2)
                     | (Inr vs, env2) \<Rightarrow> (Inr (v # vs), env2))))
      | _ \<Rightarrow> (Inl KeyError, env))"
  by pat_completeness auto

termination
  by (relation "measures [
      (\<lambda>x. case x of
          Inl (Inl (n, env, loc, expression)) \<Rightarrow> n
        | Inl (Inr (n, env, loc, operator, operands)) \<Rightarrow> n
        | Inr (Inl (n, env, loc, operands)) \<Rightarrow> n
        | Inr (Inr (Inl (n, env, f, args))) \<Rightarrow> n
        | Inr (Inr (Inr (n, env, func, tuples))) \<Rightarrow> n),
      (\<lambda>x. case x of
          Inl (Inl _) \<Rightarrow> 0
        | Inl (Inr _) \<Rightarrow> 2
        | Inr (Inl _) \<Rightarrow> 1
        | Inr (Inr (Inl _)) \<Rightarrow> 0
        | Inr (Inr (Inr _)) \<Rightarrow> 1),
      (\<lambda>x. case x of
          Inl _ \<Rightarrow> 0
        | Inr (Inl (n, env, loc, operands)) \<Rightarrow> length operands
        | Inr (Inr (Inl _)) \<Rightarrow> 0
        | Inr (Inr (Inr (n, env, func, tuples))) \<Rightarrow> length tuples)]")
    auto

declare evaluate_expression.simps [simp del]
declare evaluate_function_call.simps [simp del]
declare evaluate_operands.simps [simp del]
declare call_function.simps [simp del]
declare mapcar_loop.simps [simp del]


subsection \<open>Notions used to state the claims\<close>

definition in_range :: "rat \<Rightarrow> bool" where
  "in_range r = (INT_MIN \<le> r \<and> r \<le> INT_MAX)"

text \<open>The products \<open>multiply\<close> checks, one after each argument, starting from \<open>p\<close>.\<close>

fun prefix_products :: "rat \<Rightarrow> rat list \<Rightarrow> rat list" where
  "prefix_products p [] = []"
| "prefix_products p (r # rs) = (p * r) # prefix_products (p * r) rs"

text \<open>
  The child environment's variables in the words of the specification: the defining
  environment's variables merged with the caller's current variables, overlaid with the
  parameter bindings.  It is compared below with what \<open>user_function\<close> builds.
\<close>

definition spec_child_variables ::
    "(vkey \<rightharpoonup> pyval) \<Rightarrow> (vkey \<rightharpoonup> pyval) \<Rightarrow> vkey list \<Rightarrow> pyval list \<Rightarrow> (vkey \<rightharpoonup> pyval)" where
  "spec_child_variables defining caller ks args = (defining ++ caller)(ks [\<mapsto>] args)"

text \<open>Environments reached from the initial one, used in the examples.\<close>

definition env_a :: environment where
  \<comment> \<open>after \<open>(define a 1)\<close>\<close>
  "env_a = init_environment\<lparr>variables := (variables init_environment)(KStr ''a'' \<mapsto> PInt 1)\<rparr>"

definition env_ab :: environment where
  \<comment> \<open>after \<open>(define a 1)\<close> and \<open>(define b 2)\<close>\<close>
  "env_ab = env_a\<lparr>variables := (variables env_a)(KStr ''b'' \<mapsto> PInt 2)\<rparr>"

definition env_x :: environment where
  \<comment> \<open>after \<open>(define x 5)\<close>\<close>
  "env_x = init_environment\<lparr>variables := (variables init_environment)(KStr ''x'' \<mapsto> PInt 5)\<rparr>"

definition env_plus :: environment where
  \<comment> \<open>after \<open>(define + 5)\<close>\<close>
  "env_plus = init_environment\<lparr>variables := (variables init_environment)(KStr ''+'' \<mapsto> PInt 5)\<rparr>"

definition env_square :: environment where
  \<comment> \<open>after \<open>(defun square (x) (* x x))\<close>\<close>
  "env_square = init_environment\<lparr>function_table := (function_table init_environment)
     (''square'' \<mapsto> UserFunction ''square'' [PStr ''x''] (PList [PStr ''*'', PStr ''x'', PStr ''x'']))\<rparr>"

definition env_fg :: environment where
  \<comment> \<open>after \<open>(defun f () x)\<close> and \<open>(defun g (x) (f))\<close>\<close>
  "env_fg = init_environment\<lparr>function_table := (function_table init_environment)
     (''f'' \<mapsto> UserFunction ''f'' [] (PStr ''x''),
      ''g'' \<mapsto> UserFunction ''g'' [PStr ''x''] (PList [PStr ''f'']))\<rparr>"

definition g_frame :: "vkey \<rightharpoonup> pyval" where
  \<comment> \<open>the variables of the child environment in which \<open>(g 5)\<close> evaluates its body\<close>
  "g_frame = (variables env_fg)(KStr ''x'' \<mapsto> PInt 5)"


section \<open>Facts about the evaluator\<close>

lemmas evaluator_simps =
  evaluate_expression.simps evaluate_function_call.simps evaluate_operands.simps
  call_function.simps mapcar_loop.simps self_variables_def

lemma variables_init:
  "variables init_environment = [KStr ''T'' \<mapsto> PBool True, KStr ''NIL'' \<mapsto> PNone]"
  by (simp add: init_environment_def)

lemma function_table_init:
  "function_table init_environment ''if'' = Some (Primitive If_cond)"
  "function_table init_environment ''define'' = Some Define_fn"
  "function_table init_environment ''+'' = Some (Primitive Add)"
  "function_table init_environment ''*'' = Some (Primitive Multiply)"
  "function_table init_environment ''/'' = Some (Primitive Divide)"
  "function_table init_environment ''foo'' = None"
  by (simp_all add: init_environment_def)

lemma evaluate_operands_append_fail:
  "evaluate_operands n env loc earlier = (Inr vs, env1, loc1) \<Longrightarrow>
   evaluate_expression n env1 loc1 failing = (Inl e, env2, loc2) \<Longrightarrow>
   evaluate_operands n env loc (earlier @ failing # later) = (Inl e, env2, loc2)"
proof (induction earlier arbitrary: env loc vs)
  case Nil
  then show ?case by (simp add: evaluate_operands.simps)
next
  case (Cons x xs)
  then show ?case
    by (auto simp: evaluate_operands.simps split: prod.splits sum.splits)
qed

lemma evaluate_call_head:
  assumes "self_variables env loc (KStr operator) = None" and "operator \<noteq> ''quote''"
  shows "evaluate_expression (Suc n) env loc (PList (PStr operator # operands)) =
         evaluate_function_call n env loc operator operands"
  using assms by (simp add: evaluate_expression.simps)

lemma evaluate_function_call_ordinary:
  assumes "function_table env operator = Some f0"
    and "operator \<noteq> ''set!''" and "operator \<noteq> ''defun''" and "operator \<noteq> ''mapcar''"
  shows "evaluate_function_call n env loc operator operands =
     (case evaluate_operands n env loc operands of
        (Inl e, env1, loc1) \<Rightarrow> (Inl e, env1, loc1)
      | (Inr evaluated_operands, env1, loc1) \<Rightarrow>
          (case function_table env1 operator of
             None \<Rightarrow> (Inl KeyError, env1, loc1)
           | Some f \<Rightarrow>
               (case call_function n env1 f evaluated_operands of
                  (r, env2) \<Rightarrow> (r, env2, loc1))))"
  using assms by (simp add: evaluate_function_call.simps)

lemma evaluate_ordinary_call:
  assumes "self_variables env loc (KStr operator) = None" and "operator \<noteq> ''quote''"
    and "function_table env operator = Some f0"
    and "operator \<noteq> ''set!''" and "operator \<noteq> ''defun''" and "operator \<noteq> ''mapcar''"
    and "evaluate_operands n env loc operands = (Inr args, env1, loc1)"
    and "function_table env1 operator = Some f"
  shows "evaluate_expression (Suc n) env loc (PList (PStr operator # operands)) =
     (case call_function n env1 f args of (r, env2) \<Rightarrow> (r, env2, loc1))"
proof -
  have "evaluate_expression (Suc n) env loc (PList (PStr operator # operands)) =
      evaluate_function_call n env loc operator operands"
    using assms(1,2) by (rule evaluate_call_head)
  also have "\<dots> = (case call_function n env1 f args of (r, env2) \<Rightarrow> (r, env2, loc1))"
    by (simp add: evaluate_function_call_ordinary [OF assms(3-6)] assms(7,8))
  finally show ?thesis .
qed

lemma evaluate_operands_3:
  assumes "evaluate_expression n env loc c = (Inr vc, env1, loc1)"
    and "evaluate_expression n env1 loc1 a = (Inr va, env2, loc2)"
    and "evaluate_expression n env2 loc2 b = (Inr vb, env3, loc3)"
  shows "evaluate_operands n env loc [c, a, b] = (Inr [vc, va, vb], env3, loc3)"
  by (simp add: evaluate_operands.simps assms)

lemma bind_params_those:
  "those (map key_of params) = Some ks \<Longrightarrow> length args = length params \<Longrightarrow>
   bind_params vars params args = Some (vars(ks [\<mapsto>] args))"
proof (induction params arbitrary: vars args ks)
  case Nil
  then show ?case by simp
next
  case (Cons p ps)
  from Cons.prems(2) obtain a as where args: "args = a # as" and len: "length as = length ps"
    by (cases args) auto
  from Cons.prems(1) obtain k ks' where k: "key_of p = Some k" and ks': "those (map key_of ps) = Some ks'"
    and ks: "ks = k # ks'"
    by (auto split: option.splits)
  have ih: "bind_params (vars(k \<mapsto> a)) ps as = Some ((vars(k \<mapsto> a))(ks' [\<mapsto>] as))"
    using ks' len by (rule Cons.IH)
  show ?case
    by (simp add: args k ks ih)
qed

subsection \<open>Arithmetic\<close>

lemma int_of_num_of: "int_of v = Some i \<Longrightarrow> num_of v = Some (of_int i)"
  by (cases v) (auto split: if_splits)

lemma py_eq_zero: "py_eq v (PInt 0) = (num_of v = Some 0)"
  by (cases v) auto

lemma check_32bit_num:
  "num_of v = Some r \<Longrightarrow> check_32bit v = (if in_range r then Inr v else Inl OverflowError)"
  by (auto simp: check_32bit_def in_range_def)

lemma check_32bit_Inr:
  "check_32bit v = Inr v' \<Longrightarrow> v' = v \<and> (\<exists>r. num_of v = Some r \<and> in_range r)"
  by (auto simp: check_32bit_def in_range_def split: option.splits if_splits)

lemma arith2_num:
  assumes "\<And>i j. of_int (fi i j) = fr (of_int i) (of_int j)"
    and "num_of a = Some x" and "num_of b = Some y"
  shows "\<exists>v. arith2 fi fr a b = Inr v \<and> num_of v = Some (fr x y)"
proof (cases "int_of a")
  case None
  then show ?thesis using assms(2,3) by (simp add: arith2_def)
next
  case (Some i)
  note a = this
  show ?thesis
  proof (cases "int_of b")
    case None
    then show ?thesis using assms(2,3) a by (simp add: arith2_def)
  next
    case (Some j)
    have "x = of_int i" "y = of_int j"
      using int_of_num_of [OF a] int_of_num_of [OF Some] assms(2,3) by simp_all
    then show ?thesis using a Some assms(1) by (simp add: arith2_def)
  qed
qed

lemma py_add_num:
  "num_of a = Some x \<Longrightarrow> num_of b = Some y \<Longrightarrow> \<exists>v. py_add a b = Inr v \<and> num_of v = Some (x + y)"
  unfolding py_add_def by (rule arith2_num) simp_all

lemma py_sub_num:
  "num_of a = Some x \<Longrightarrow> num_of b = Some y \<Longrightarrow> \<exists>v. py_sub a b = Inr v \<and> num_of v = Some (x - y)"
  unfolding py_sub_def by (rule arith2_num) simp_all

lemma py_mul_num:
  "num_of a = Some x \<Longrightarrow> num_of b = Some y \<Longrightarrow> \<exists>v. py_mul a b = Inr v \<and> num_of v = Some (x * y)"
  unfolding py_mul_def by (rule arith2_num) simp_all

lemma py_sum_num:
  "num_of acc = Some a \<Longrightarrow> map num_of args = map Some rs \<Longrightarrow>
   \<exists>v. py_sum acc args = Inr v \<and> num_of v = Some (a + sum_list rs)"
proof (induction args arbitrary: acc a rs)
  case Nil
  then show ?case by simp
next
  case (Cons x xs)
  from Cons.prems(2) obtain r rs' where rs: "rs = r # rs'" and r: "num_of x = Some r"
    and rs': "map num_of xs = map Some rs'"
    by (cases rs) auto
  from py_add_num [OF Cons.prems(1) r] obtain v where v: "py_add acc x = Inr v" "num_of v = Some (a + r)"
    by blast
  from Cons.IH [OF v(2) rs'] show ?case
    by (simp add: v(1) rs add.assoc)
qed

lemma add_num:
  assumes "map num_of args = map Some rs"
  shows "\<exists>v. num_of v = Some (sum_list rs) \<and>
     add args = (if in_range (sum_list rs) then Inr v else Inl OverflowError)"
proof -
  from py_sum_num [of "PInt 0" 0 args rs] assms
  obtain v where v: "py_sum (PInt 0) args = Inr v" "num_of v = Some (sum_list rs)"
    by auto
  then show ?thesis
    by (auto simp: add_def check_32bit_num)
qed

lemma subtract_num:
  assumes "num_of a = Some x" and "num_of b = Some y"
  shows "\<exists>v. num_of v = Some (x - y) \<and>
     subtract [a, b] = (if in_range (x - y) then Inr v else Inl OverflowError)"
proof -
  from py_sub_num [OF assms] obtain v where v: "py_sub a b = Inr v" "num_of v = Some (x - y)"
    by blast
  then show ?thesis
    by (auto simp: subtract_def check_32bit_num)
qed

lemma multiply_loop_num:
  "num_of result = Some p \<Longrightarrow> map num_of args = map Some rs \<Longrightarrow>
   \<exists>v. num_of v = Some (p * prod_list rs) \<and>
     multiply_loop result args =
       (if list_all in_range (prefix_products p rs) then Inr v else Inl OverflowError)"
proof (induction args arbitrary: result p rs)
  case Nil
  then show ?case by simp
next
  case (Cons x xs)
  from Cons.prems(2) obtain r rs' where rs: "rs = r # rs'" and r: "num_of x = Some r"
    and rs': "map num_of xs = map Some rs'"
    by (cases rs) auto
  from py_mul_num [OF Cons.prems(1) r] obtain v where v: "py_mul result x = Inr v" "num_of v = Some (p * r)"
    by blast
  from Cons.IH [OF v(2) rs'] obtain w where w: "num_of w = Some (p * r * prod_list rs')"
    "multiply_loop v xs = (if list_all in_range (prefix_products (p * r) rs') then Inr w else Inl OverflowError)"
    by blast
  show ?case
    by (rule exI [of _ w]) (simp add: rs v w check_32bit_num mult.assoc)
qed

lemma multiply_num:
  assumes "map num_of args = map Some rs"
  shows "\<exists>v. num_of v = Some (prod_list rs) \<and>
     multiply args = (if list_all in_range (prefix_products 1 rs) then Inr v else Inl OverflowError)"
  using multiply_loop_num [of "PInt 1" 1 args rs] assms by (simp add: multiply_def)

lemma multiply_loop_Inr:
  "multiply_loop result args = Inr v \<Longrightarrow> num_of result = Some p \<Longrightarrow> in_range p \<Longrightarrow>
   \<exists>r. num_of v = Some r \<and> in_range r"
proof (induction args arbitrary: result p)
  case Nil
  then show ?case by simp
next
  case (Cons x xs)
  from Cons.prems(1) obtain w where w: "py_mul result x = Inr w" "check_32bit w = Inr w"
    and rest: "multiply_loop w xs = Inr v"
    by (auto split: sum.splits dest: check_32bit_Inr)
  from check_32bit_Inr [OF w(2)] obtain r where "num_of w = Some r" "in_range r"
    by blast
  with rest show ?case by (rule Cons.IH)
qed

lemma divide_fn_num:
  assumes "num_of a = Some x" and "num_of b = Some y" and "y \<noteq> 0"
  shows "divide_fn [a, b] = (if in_range (x / y) then Inr (PFrac (x / y)) else Inl OverflowError)"
  using assms by (auto simp: divide_fn_def fraction_new_def py_eq_zero check_32bit_num)

lemma divide_fn_zero:
  "b \<noteq> PNone \<Longrightarrow> (divide_fn [a, b] = Inl ZeroDivisionError) = (num_of b = Some 0)"
  by (auto simp: divide_fn_def fraction_new_def py_eq_zero check_32bit_def
      split: option.splits sum.splits if_splits)

lemma power_fn_int:
  assumes "int_of a = Some i" and "int_of b = Some j" and "0 \<le> j"
  shows "power_fn [a, b] =
     (if in_range (of_int (i ^ nat j)) then Inr (PInt (i ^ nat j)) else Inl OverflowError)"
  using assms int_of_num_of [OF assms(1)] int_of_num_of [OF assms(2)]
  by (simp add: power_fn_def check_32bit_num)

lemma isqrt_square_le: "isqrt n * isqrt n \<le> n"
proof (induction n rule: isqrt.induct)
  case (1 n)
  show ?case
  proof (cases "n = 0")
    case True
    then show ?thesis by (simp add: isqrt.simps)
  next
    case False
    define s where "s = isqrt (n div 4)"
    have "s * s \<le> n div 4"
      unfolding s_def using False by (rule "1.IH")
    then have "(2 * s) * (2 * s) \<le> n"
      by simp
    then show ?thesis
      using False by (subst (1 2) isqrt.simps) (simp add: Let_def s_def)
  qed
qed

lemma isqrt_small:
  assumes "n < 2 ^ 52"
  shows "isqrt n < 2 ^ 31"
proof (rule ccontr)
  assume "\<not> isqrt n < 2 ^ 31"
  then have h: "(2::nat) ^ 31 \<le> isqrt n" by simp
  have "(2::nat) ^ 31 * 2 ^ 31 \<le> isqrt n * isqrt n"
    using h h by (rule mult_le_mono)
  also have "\<dots> \<le> n" by (rule isqrt_square_le)
  finally show False using assms by simp
qed

lemma sqrt_fn_int:
  assumes "int_of a = Some i" and "0 \<le> i" and "i < 2 ^ 52"
  shows "sqrt_fn [a] = Inr (PInt (int (isqrt (nat i))))"
proof -
  have "nat i < 2 ^ 52" using assms(2,3) by (simp add: nat_less_iff)
  then have "isqrt (nat i) < 2 ^ 31" by (rule isqrt_small)
  then have "in_range (of_int (int (isqrt (nat i))))"
    by (simp add: in_range_def INT_MIN_def INT_MAX_def)
  then show ?thesis
    using assms int_of_num_of [OF assms(1)]
    by (simp add: sqrt_fn_def check_32bit_num)
qed

lemma arithmetic_results_in_range:
  assumes "add args = Inr v \<or> subtract args = Inr v \<or> multiply args = Inr v
      \<or> divide_fn args = Inr v \<or> sqrt_fn args = Inr v \<or> power_fn args = Inr v"
  shows "\<exists>r. num_of v = Some r \<and> in_range r"
proof -
  have c: "\<And>w. check_32bit w = Inr v \<Longrightarrow> \<exists>r. num_of v = Some r \<and> in_range r"
    using check_32bit_Inr by blast
  consider "add args = Inr v" | "subtract args = Inr v" | "multiply args = Inr v"
    | "divide_fn args = Inr v" | "sqrt_fn args = Inr v" | "power_fn args = Inr v"
    using assms by blast
  then show ?thesis
  proof cases
    case 1
    then show ?thesis by (auto simp: add_def split: sum.splits dest: c)
  next
    case 2
    then show ?thesis by (auto simp: subtract_def split: list.splits sum.splits dest: c)
  next
    case 3
    then show ?thesis
      using multiply_loop_Inr [of "PInt 1" args v 1]
      by (simp add: multiply_def in_range_def INT_MIN_def INT_MAX_def)
  next
    case 4
    then show ?thesis
      by (auto simp: divide_fn_def split: list.splits if_splits sum.splits dest: c)
  next
    case 5
    then show ?thesis
      by (auto simp: sqrt_fn_def split: list.splits if_splits option.splits dest: c)
  next
    case 6
    then show ?thesis
      by (auto simp: power_fn_def split: list.splits if_splits option.splits dest: c)
  qed
qed


section \<open>The claims about the parser\<close>




text \<open>
  Claim C10.  Parsing the lone quote mark, or an input that is empty or all blanks, raises
  the \<open>IndexError\<close> of the number check, which reads character 0 of the empty string; it
  is not the \<open>SyntaxError\<close> of the parser's own checks.
\<close>

theorem parse_blank_index_error:
  "(list_all is_space s \<longrightarrow> parse_expression s = Inl IndexError)
   \<and> parse_expression [quote_char] = Inl IndexError
   \<and> is_number [] = Inl IndexError"
proof (intro conjI impI)
  assume "list_all is_space s"
  then have "strip s = []" by (rule strip_all_space)
  then show "parse_expression s = Inl IndexError"
    by (subst parse_expression.simps) (simp add: startswith_def is_number_def)
next
  show "parse_expression [quote_char] = Inl IndexError" by code_simp
next
  show "is_number [] = Inl IndexError" by (simp add: is_number_def)
qed

theorem parse_blank_index_error_witness:
  "list_all is_space '' '' \<and> parse_expression '' '' = Inl IndexError"
proof -
  have h: "list_all is_space '' ''" by (simp add: is_space_def)
  show ?thesis using h parse_blank_index_error [of "'' ''"] by simp
qed

section \<open>The claims about the evaluator\<close>

text \<open>
  Claim C1 says that the empty list evaluates to nil.  The evaluator reads
  \<open>expression[0]\<close> before anything else, so on the empty list, which the parser produces
  from \<open>( )\<close> and for the operand of \<open>(car ())\<close>, it raises \<open>IndexError\<close>.
\<close>

theorem evaluate_empty_list_index_error:
  "parse_expression ''( )'' = Inr (PList [])
   \<and> evaluate_expression (Suc n) env loc (PList []) = (Inl IndexError, env, loc)
   \<and> fst (evaluate_expression 3 init_environment None (PList [PStr ''car'', PList []])) = Inl IndexError"
proof (intro conjI)
  show "parse_expression ''( )'' = Inr (PList [])"
    by code_simp
  show "evaluate_expression (Suc n) env loc (PList []) = (Inl IndexError, env, loc)"
    by (simp add: evaluate_expression.simps)
  show "fst (evaluate_expression 3 init_environment None (PList [PStr ''car'', PList []])) = Inl IndexError"
    by code_simp
qed

text \<open>
  Claim C4.  A list whose head, read as text, is bound as a variable evaluates to that
  variable's current value: the lookup comes before the test for \<open>quote\<close> and before the
  function dispatch, and the environment is left as it was.
\<close>

theorem head_variable_has_priority:
  assumes "self_variables env loc (KStr (py_str head)) = Some v"
  shows "evaluate_expression (Suc n) env loc (PList (head # operands)) = (Inr v, env, loc)"
  using assms by (simp add: evaluate_expression.simps)

theorem head_variable_has_priority_witness:
  "self_variables env_plus None (KStr (py_str (PStr ''+''))) = Some (PInt 5)
   \<and> evaluate_expression (Suc 0) env_plus None (PList [PStr ''+'', PInt 1, PInt 2])
       = (Inr (PInt 5), env_plus, None)"
proof -
  have h: "self_variables env_plus None (KStr (py_str (PStr ''+''))) = Some (PInt 5)"
    by (simp add: self_variables_def env_plus_def)
  show ?thesis
    using h head_variable_has_priority [OF h, of 0 "[PInt 1, PInt 2]"] by simp
qed

text \<open>
  Claim C9, as amended.  For a list whose head is neither a bound variable name nor
  \<open>quote\<close>: if the head is a symbol that is not in the function table, evaluation fails
  with \<open>NameError\<close> (Unknown-Function); if the head is not a symbol at all, it fails with
  \<open>SyntaxError\<close> (Malformed-Syntax).  The environment is left as it was.
\<close>

theorem head_not_callable:
  assumes "self_variables env loc (KStr (py_str head)) = None" and "py_str head \<noteq> ''quote''"
  shows "(\<forall>operator. head = PStr operator \<and> function_table env operator = None \<longrightarrow>
            evaluate_expression (Suc n) env loc (PList (head # operands)) = (Inl NameError, env, loc))
       \<and> ((\<forall>operator. head \<noteq> PStr operator) \<longrightarrow>
            evaluate_expression (Suc n) env loc (PList (head # operands)) = (Inl SyntaxError, env, loc))"
proof (intro conjI allI impI)
  fix operator
  assume "head = PStr operator \<and> function_table env operator = None"
  then show "evaluate_expression (Suc n) env loc (PList (head # operands)) = (Inl NameError, env, loc)"
    using assms by (simp add: evaluate_expression.simps evaluate_function_call.simps)
next
  assume "\<forall>operator. head \<noteq> PStr operator"
  then show "evaluate_expression (Suc n) env loc (PList (head # operands)) = (Inl SyntaxError, env, loc)"
    using assms by (cases head) (simp_all add: evaluate_expression.simps)
qed

theorem head_not_callable_witness:
  "evaluate_expression (Suc 0) init_environment None (PList [PStr ''foo'', PInt 1])
      = (Inl NameError, init_environment, None)
   \<and> evaluate_expression (Suc 0) init_environment None (PList [PList [PStr ''a'']])
      = (Inl SyntaxError, init_environment, None)"
proof -
  have a: "self_variables init_environment None (KStr (py_str (PStr ''foo''))) = None"
    by (simp add: self_variables_def variables_init)
  have b: "py_str (PStr ''foo'') \<noteq> ''quote''"
    by simp
  have c: "self_variables init_environment None (KStr (py_str (PList [PStr ''a'']))) = None"
    by (simp add: self_variables_def variables_init repr_str_def)
  have d: "py_str (PList [PStr ''a'']) \<noteq> ''quote''"
    by simp
  show ?thesis
    using head_not_callable [OF a b, of 0 "[PInt 1]"] head_not_callable [OF c d, of 0 "[]"]
    by (simp add: function_table_init)
qed

text \<open>
  Claim C9 as first stated: a head that is no symbol, here the integer 5, makes the
  evaluation fail with \<open>SyntaxError\<close>, not with the \<open>NameError\<close> of an unknown function.
\<close>

theorem head_not_symbol_counterexample:
  "self_variables init_environment None (KStr (py_str (PInt 5))) = None
   \<and> py_str (PInt 5) \<noteq> ''quote''
   \<and> fst (evaluate_expression 2 init_environment None (PList [PInt 5])) = Inl SyntaxError
   \<and> fst (evaluate_expression 2 init_environment None (PList [PInt 5])) \<noteq> Inl NameError"
proof -
  have s: "py_str (PInt 5) = ''5''"
    by code_simp
  have v: "self_variables init_environment None (KStr ''5'') = None"
    by (simp add: self_variables_def variables_init)
  have e: "fst (evaluate_expression 2 init_environment None (PList [PInt 5])) = Inl SyntaxError"
    by code_simp
  show ?thesis
    unfolding s using v e by simp
qed

text \<open>
  Claim C3.  In \<open>(if c a b)\<close>, with \<open>if\<close> naming the built-in and not a variable, the three
  operands are evaluated one after the other, whatever the condition is: the environment
  after the call is the one left by evaluating \<open>c\<close>, then \<open>a\<close>, then \<open>b\<close>.  The value is the
  consequent's when the condition's value is the boolean \<open>True\<close> itself, and the
  alternative's otherwise.
\<close>

theorem if_evaluates_both_branches:
  assumes "self_variables env loc (KStr ''if'') = None"
    and "function_table env ''if'' = Some (Primitive If_cond)"
    and "evaluate_expression n env loc c = (Inr vc, env1, loc1)"
    and "evaluate_expression n env1 loc1 a = (Inr va, env2, loc2)"
    and "evaluate_expression n env2 loc2 b = (Inr vb, env3, loc3)"
    and "function_table env3 ''if'' = Some (Primitive If_cond)"
  shows "evaluate_expression (Suc n) env loc (PList [PStr ''if'', c, a, b])
         = (Inr (if vc = PBool True then va else vb), env3, loc3)"
proof -
  have ops: "evaluate_operands n env loc [c, a, b] = (Inr [vc, va, vb], env3, loc3)"
    using assms(3-5) by (rule evaluate_operands_3)
  have "evaluate_expression (Suc n) env loc (PList [PStr ''if'', c, a, b]) =
      (case call_function n env3 (Primitive If_cond) [vc, va, vb] of (r, env') \<Rightarrow> (r, env', loc3))"
    using assms(1) _ assms(2) _ _ _ ops assms(6) by (rule evaluate_ordinary_call) simp_all
  then show ?thesis
    by (simp add: call_function.simps if_cond_def)
qed

theorem if_evaluates_both_branches_witness:
  "evaluate_expression 3 init_environment None
     (PList [PStr ''if'', PStr ''T'', PList [PStr ''define'', PStr ''a'', PInt 1],
             PList [PStr ''define'', PStr ''b'', PInt 2]]) = (Inr (PStr ''a''), env_ab, None)
   \<and> variables env_ab (KStr ''a'') = Some (PInt 1) \<and> variables env_ab (KStr ''b'') = Some (PInt 2)
   \<and> variables init_environment (KStr ''b'') = None"
proof -
  have v: "self_variables init_environment None (KStr ''if'') = None"
    by (simp add: self_variables_def variables_init)
  have f: "function_table env_ab ''if'' = Some (Primitive If_cond)"
    by (simp add: env_ab_def env_a_def function_table_init)
  have h1: "evaluate_expression 2 init_environment None (PStr ''T'')
      = (Inr (PBool True), init_environment, None)"
    by (simp add: eval_nat_numeral evaluator_simps variables_init)
  have h2: "evaluate_expression 2 init_environment None (PList [PStr ''define'', PStr ''a'', PInt 1])
      = (Inr (PStr ''a''), env_a, None)"
    by (simp add: eval_nat_numeral evaluator_simps variables_init function_table_init
        define_fn_def env_a_def)
  have h3: "evaluate_expression 2 env_a None (PList [PStr ''define'', PStr ''b'', PInt 2])
      = (Inr (PStr ''b''), env_ab, None)"
    by (simp add: eval_nat_numeral evaluator_simps variables_init function_table_init
        define_fn_def env_a_def env_ab_def)
  have "evaluate_expression (Suc 2) init_environment None
     (PList [PStr ''if'', PStr ''T'', PList [PStr ''define'', PStr ''a'', PInt 1],
             PList [PStr ''define'', PStr ''b'', PInt 2]]) = (Inr (PStr ''a''), env_ab, None)"
    using if_evaluates_both_branches [OF v function_table_init(1) h1 h2 h3 f] by simp
  then show ?thesis
    by (simp add: env_ab_def env_a_def variables_init)
qed




text \<open>
  Claim C8, as amended.  In \<open>(/ a b)\<close>, with \<open>/\<close> naming the built-in and the operands
  evaluated to \<open>va\<close> and \<open>vb\<close>, the call's outcome is that of \<open>divide\<close> on these values.
  When the divisor \<open>vb\<close> is not \<open>None\<close>, the outcome is \<open>ZeroDivisionError\<close> exactly when
  \<open>vb\<close> is a number equal to zero; and for rational numbers with a divisor other than zero
  it is the exact quotient as a \<open>Fraction\<close>, or \<open>OverflowError\<close> when the quotient is outside
  the 32-bit range.
\<close>

theorem divide_by_zero_exactly:
  assumes "self_variables env loc (KStr ''/'') = None"
    and "function_table env ''/'' = Some (Primitive Divide)"
    and "evaluate_operands n env loc [a, b] = (Inr [va, vb], env1, loc1)"
    and "function_table env1 ''/'' = Some (Primitive Divide)"
  shows "evaluate_expression (Suc n) env loc (PList [PStr ''/'', a, b]) = (divide_fn [va, vb], env1, loc1)
       \<and> (vb \<noteq> PNone \<longrightarrow> (divide_fn [va, vb] = Inl ZeroDivisionError) = (num_of vb = Some 0))
       \<and> (\<forall>x y. num_of va = Some x \<and> num_of vb = Some y \<and> y \<noteq> 0 \<longrightarrow>
              divide_fn [va, vb] = (if in_range (x / y) then Inr (PFrac (x / y)) else Inl OverflowError))"
proof (intro conjI allI impI)
  have "evaluate_expression (Suc n) env loc (PList [PStr ''/'', a, b]) =
      (case call_function n env1 (Primitive Divide) [va, vb] of (r, env') \<Rightarrow> (r, env', loc1))"
    using assms(1) _ assms(2) _ _ _ assms(3,4) by (rule evaluate_ordinary_call) simp_all
  then show "evaluate_expression (Suc n) env loc (PList [PStr ''/'', a, b])
      = (divide_fn [va, vb], env1, loc1)"
    by (simp add: call_function.simps)
next
  assume "vb \<noteq> PNone"
  then show "(divide_fn [va, vb] = Inl ZeroDivisionError) = (num_of vb = Some 0)"
    by (rule divide_fn_zero)
next
  fix x y
  assume "num_of va = Some x \<and> num_of vb = Some y \<and> y \<noteq> 0"
  then show "divide_fn [va, vb] = (if in_range (x / y) then Inr (PFrac (x / y)) else Inl OverflowError)"
    by (simp add: divide_fn_num)
qed

theorem divide_by_zero_exactly_witness:
  "evaluate_expression 2 init_environment None (PList [PStr ''/'', PInt 1, PInt 0])
      = (Inl ZeroDivisionError, init_environment, None)
   \<and> evaluate_expression 2 init_environment None (PList [PStr ''/'', PInt 6, PInt 4])
      = (Inr (PFrac (3 / 2)), init_environment, None)"
proof -
  have v: "self_variables init_environment None (KStr ''/'') = None"
    by (simp add: self_variables_def variables_init)
  have o1: "evaluate_operands 1 init_environment None [PInt 1, PInt 0]
      = (Inr [PInt 1, PInt 0], init_environment, None)"
    by (simp add: evaluator_simps variables_init)
  have o2: "evaluate_operands 1 init_environment None [PInt 6, PInt 4]
      = (Inr [PInt 6, PInt 4], init_environment, None)"
    by (simp add: evaluator_simps variables_init)
  have r: "in_range (6 / 4)" "(6::rat) / 4 = 3 / 2"
    by (simp_all add: in_range_def INT_MIN_def INT_MAX_def)
  show ?thesis
    using divide_by_zero_exactly [OF v function_table_init(5) o1 function_table_init(5)]
      divide_by_zero_exactly [OF v function_table_init(5) o2 function_table_init(5)] r
    by (simp add: eval_nat_numeral)
qed

text \<open>
  Claim C8 as first stated: in \<open>(/ 1/0 NIL)\<close> the divisor is \<open>None\<close>, not zero, and the dividend
  is the symbol \<open>1/0\<close>; \<open>Fraction\<close> with a \<open>None\<close> denominator reads the string and raises
  \<open>ZeroDivisionError\<close>.
\<close>

theorem divide_none_divisor_counterexample:
  "fst (evaluate_expression 2 init_environment None
          (PList [PStr ''/'', PStr ''1/0'', PStr ''NIL''])) = Inl ZeroDivisionError
   \<and> fst (evaluate_expression 1 init_environment None (PStr ''NIL'')) = Inr PNone
   \<and> divide_fn [PStr ''1/0'', PNone] = Inl ZeroDivisionError
   \<and> num_of PNone \<noteq> Some 0"
proof -
  have a: "fst (evaluate_expression 2 init_environment None
          (PList [PStr ''/'', PStr ''1/0'', PStr ''NIL''])) = Inl ZeroDivisionError"
    by code_simp
  have b: "fst (evaluate_expression 1 init_environment None (PStr ''NIL'')) = Inr PNone"
    by code_simp
  have c: "divide_fn [PStr ''1/0'', PNone] = Inl ZeroDivisionError"
    by code_simp
  show ?thesis
    using a b c by simp
qed

text \<open>
  Claim C2, as amended.  A call of a user-defined function whose parameters are hashable
  (symbols, as a rule), once its operands are evaluated to \<open>args\<close>: with as many arguments
  as parameters, the stored body is evaluated in a fresh child environment whose variables
  are a copy of the root (defining) environment's variables at call time, that is after
  the operands were evaluated, overlaid with the parameter bindings in order; the caller's
  own variables are not merged in.  The function table is the shared one, the root
  environment after the call is the one the body left, and the caller's frame is as it was
  before the call: the child is dropped.  With another number of arguments the call fails
  with \<open>TypeError\<close> (Arity-Mismatch).
\<close>

theorem user_function_call:
  assumes "self_variables env loc (KStr name) = None" and "name \<noteq> ''quote''"
    and "function_table env name = Some f0"
    and "name \<noteq> ''set!''" and "name \<noteq> ''defun''" and "name \<noteq> ''mapcar''"
    and "evaluate_operands (Suc m) env loc operands = (Inr args, env1, loc1)"
    and "function_table env1 name = Some (UserFunction nm params body)"
    and "those (map key_of params) = Some ks"
  shows "evaluate_expression (Suc (Suc m)) env loc (PList (PStr name # operands)) =
     (if length args \<noteq> length params then (Inl TypeError, env1, loc1)
      else (case evaluate_expression m env1 (Some ((variables env1)(ks [\<mapsto>] args))) body of
              (r, env2, child) \<Rightarrow> (r, env2, loc1)))"
proof -
  have "evaluate_expression (Suc (Suc m)) env loc (PList (PStr name # operands)) =
      (case call_function (Suc m) env1 (UserFunction nm params body) args of
         (r, env2) \<Rightarrow> (r, env2, loc1))"
    using assms(1-8) by (rule evaluate_ordinary_call)
  then show ?thesis
    by (simp add: call_function.simps bind_params_those [OF assms(9)] split: prod.splits)
qed

theorem user_function_call_witness:
  "evaluate_expression 4 env_square None (PList [PStr ''square'', PInt 5])
      = (Inr (PInt 25), env_square, None)
   \<and> evaluate_expression 4 env_square None (PList [PStr ''square'', PInt 1, PInt 2])
      = (Inl TypeError, env_square, None)"
proof -
  have v: "self_variables env_square None (KStr ''square'') = None"
    by (simp add: self_variables_def env_square_def variables_init)
  have f: "function_table env_square ''square'' =
      Some (UserFunction ''square'' [PStr ''x''] (PList [PStr ''*'', PStr ''x'', PStr ''x'']))"
    by (simp add: env_square_def)
  have k: "those (map key_of [PStr ''x'']) = Some [KStr ''x'']"
    by simp
  have vs: "variables env_square = [KStr ''T'' \<mapsto> PBool True, KStr ''NIL'' \<mapsto> PNone]"
    by (simp add: env_square_def variables_init)
  have o1: "evaluate_operands (Suc 2) env_square None [PInt 5] = (Inr [PInt 5], env_square, None)"
    by (simp add: eval_nat_numeral evaluator_simps vs)
  have o2: "evaluate_operands (Suc 2) env_square None [PInt 1, PInt 2]
      = (Inr [PInt 1, PInt 2], env_square, None)"
    by (simp add: eval_nat_numeral evaluator_simps vs)
  have m: "function_table env_square ''*'' = Some (Primitive Multiply)"
    by (simp add: env_square_def function_table_init)
  have b: "evaluate_expression 2 env_square (Some ((variables env_square)([KStr ''x''] [\<mapsto>] [PInt 5])))
        (PList [PStr ''*'', PStr ''x'', PStr ''x''])
      = (Inr (PInt 25), env_square, Some ((variables env_square)([KStr ''x''] [\<mapsto>] [PInt 5])))"
    by (simp add: eval_nat_numeral evaluator_simps m vs multiply_def
        py_mul_def arith2_def check_32bit_def INT_MIN_def INT_MAX_def)
  have "evaluate_expression (Suc (Suc 2)) env_square None (PList [PStr ''square'', PInt 5])
      = (Inr (PInt 25), env_square, None)"
    using user_function_call [OF v _ f _ _ _ o1 f k] b by simp
  moreover have "evaluate_expression (Suc (Suc 2)) env_square None (PList [PStr ''square'', PInt 1, PInt 2])
      = (Inl TypeError, env_square, None)"
    using user_function_call [OF v _ f _ _ _ o2 f k] by simp
  ultimately show ?thesis
    by (simp add: eval_nat_numeral)
qed

text \<open>
  Claim C2 as first stated: \<open>g\<close>, called with 5 for its parameter \<open>x\<close>, calls \<open>f\<close>, whose body
  is \<open>x\<close>.  The child environment of \<open>f\<close> has the root's variables only, so \<open>x\<close> is unbound
  there and evaluates to the symbol \<open>x\<close>; with the caller's variables merged in, it would
  be 5.
\<close>

theorem caller_variables_counterexample:
  "fst (evaluate_expression 6 env_fg None (PList [PStr ''g'', PInt 5])) = Inr (PStr ''x'')
   \<and> fst (evaluate_expression 3 env_fg (Some g_frame) (PList [PStr ''f''])) = Inr (PStr ''x'')
   \<and> fst (evaluate_expression 1 env_fg
        (Some (spec_child_variables (variables env_fg) g_frame [] [])) (PStr ''x'')) = Inr (PInt 5)"
proof (intro conjI)
  show "fst (evaluate_expression 6 env_fg None (PList [PStr ''g'', PInt 5])) = Inr (PStr ''x'')"
    by code_simp
  show "fst (evaluate_expression 3 env_fg (Some g_frame) (PList [PStr ''f''])) = Inr (PStr ''x'')"
    by code_simp
  show "fst (evaluate_expression 1 env_fg
        (Some (spec_child_variables (variables env_fg) g_frame [] [])) (PStr ''x'')) = Inr (PInt 5)"
    by code_simp
qed


end
